theory Spec2Isabelle
  imports Main "HOL-Library.Monad_Syntax"
begin

section \<open>Memory model\<close>

text \<open>
  The code under verification is \<^verbatim>\<open>thpool.c\<close>: a pool of worker threads fed from a
  doubly linked job queue, guarded by three POSIX semaphores.

  A pointer is an optional address, \<open>None\<close> being \<^verbatim>\<open>NULL\<close>.  The heap is split by type:
  one partial map per structure, whose domain is the set of live (allocated, not yet
  freed) blocks of that type.  Every function that dereferences a pointer returns an
  option: \<open>None\<close> is undefined behaviour (a read or write through \<^verbatim>\<open>NULL\<close> or through a
  pointer to no live block, a \<^verbatim>\<open>free\<close> of a block that is not live, an overflow of a
  signed \<^verbatim>\<open>int\<close>).  The result of a \<^verbatim>\<open>malloc\<close> is an argument of the function that calls
  it: \<open>None\<close> when the allocation fails, otherwise the address of the new block (and,
  for a structure, the indeterminate contents it comes with).
\<close>

type_synonym addr = nat
type_synonym ptr = "addr option"

text \<open>The structure declarations are in \<^verbatim>\<open>thpool.h\<close>, which is not among the sources.  The
  three records below take the field names from their uses in \<^verbatim>\<open>thpool.c\<close> and what the
  fields are from the data model of the specification.  \<^verbatim>\<open>jobsN\<close> and \<^verbatim>\<open>threadsN\<close> are C
  \<^verbatim>\<open>int\<close>s (they are switched on, incremented and compared with an \<^verbatim>\<open>int\<close>), modelled as
  integers whose overflow is written out where the code increments or decrements
  them.\<close>

text \<open>Modelled from the spec: the declaration of \<^verbatim>\<open>thpool_job_t\<close>.  A Job is "an executable
  reference and one opaque argument reference", linked into the queue: the fields
  \<^verbatim>\<open>function\<close>, \<^verbatim>\<open>arg\<close>, \<^verbatim>\<open>next\<close>, \<^verbatim>\<open>prev\<close> (two of these names are keywords here, so all
  four carry the prefix \<open>job_\<close>).  A function pointer and the opaque argument are
  machine addresses.\<close>

record thpool_job_t =
  job_function :: nat
  job_arg :: nat
  job_next :: ptr
  job_prev :: ptr

text \<open>Modelled from the spec: the declaration of \<^verbatim>\<open>thpool_jobqueue\<close>.  A Job Queue is "an
  ordered, mutable sequence of Jobs with a count of current size" between "two end
  references (oldest/newest)": the fields \<^verbatim>\<open>head\<close> (newest), \<^verbatim>\<open>tail\<close> (oldest), \<^verbatim>\<open>jobsN\<close>.\<close>

record thpool_jobqueue =
  head :: ptr
  tail :: ptr
  jobsN :: int

text \<open>A semaphore holds its counter once \<^verbatim>\<open>sem_init\<close> has run, and \<open>None\<close> before that and
  after \<^verbatim>\<open>sem_destroy\<close>.\<close>

type_synonym sem_t = "nat option"

text \<open>Modelled from the spec: the declaration of \<^verbatim>\<open>thpool_t\<close>.  A Pool "owns the Job Queue,
  the array of N worker thread handles, and the three synchronization primitives": the
  fields \<^verbatim>\<open>threads\<close>, \<^verbatim>\<open>threadsN\<close>, \<^verbatim>\<open>jobqueue\<close>, \<^verbatim>\<open>mutex\<close>, \<^verbatim>\<open>nEmpty\<close>, \<^verbatim>\<open>nStored\<close>.\<close>

record thpool_t =
  threads :: ptr
  threadsN :: int
  jobqueue :: ptr
  mutex :: sem_t
  nEmpty :: sem_t
  nStored :: sem_t

text \<open>The whole program state.  \<open>ids_heap\<close> holds the arrays of \<^verbatim>\<open>pthread_t\<close> (a slot is
  \<open>None\<close> until \<^verbatim>\<open>pthread_create\<close> has stored a thread id in it), \<open>thpool_keepalive\<close> is the
  file-level static flag, \<open>err_out\<close> the lines written to \<^verbatim>\<open>stderr\<close>, \<open>executed\<close> the calls
  \<^verbatim>\<open>func_buff(arg_buff)\<close> made so far (function, argument), \<open>workers\<close> the threads started
  by \<^verbatim>\<open>pthread_create\<close> (thread id, the pool each was handed) and \<open>exit_status\<close> the
  status passed to \<^verbatim>\<open>exit\<close> once the process has been terminated.\<close>

record state =
  pool_heap :: "addr \<rightharpoonup> thpool_t"
  ids_heap :: "addr \<rightharpoonup> nat option list"
  queue_heap :: "addr \<rightharpoonup> thpool_jobqueue"
  job_heap :: "addr \<rightharpoonup> thpool_job_t"
  thpool_keepalive :: int
  err_out :: "string list"
  executed :: "(nat \<times> nat) list"
  workers :: "(nat \<times> addr) list"
  exit_status :: "int option"

definition INT_MAX :: int where
  "INT_MAX = 2147483647"

definition INT_MIN :: int where
  "INT_MIN = - 2147483648"

section \<open>Job queue operations\<close>

text \<open>\<^verbatim>\<open>tp_p->jobqueue\<close> dereferenced: the address of the queue structure and its contents.\<close>

definition get_jobqueue :: "state \<Rightarrow> addr \<Rightarrow> (addr \<times> thpool_jobqueue) option" where
  "get_jobqueue s tp_p = do {
     pool \<leftarrow> pool_heap s tp_p;
     qa \<leftarrow> jobqueue pool;
     q \<leftarrow> queue_heap s qa;
     Some (qa, q)
   }"

text \<open>\<^verbatim>\<open>thpool_jobqueue_init\<close>; \<open>m\<close> is the result of its \<^verbatim>\<open>malloc\<close>.\<close>

definition thpool_jobqueue_init ::
  "state \<Rightarrow> addr \<Rightarrow> (addr \<times> thpool_jobqueue) option \<Rightarrow> (int \<times> state) option" where
  "thpool_jobqueue_init s tp_p m = do {
     pool \<leftarrow> pool_heap s tp_p;
     (case m of
        None \<Rightarrow>
          Some (- 1, s\<lparr>pool_heap := (pool_heap s)(tp_p \<mapsto> pool\<lparr>jobqueue := None\<rparr>)\<rparr>)
      | Some (qa, q0) \<Rightarrow>
          Some (0, s\<lparr>pool_heap := (pool_heap s)(tp_p \<mapsto> pool\<lparr>jobqueue := Some qa\<rparr>),
                     queue_heap := (queue_heap s)(qa \<mapsto> q0\<lparr>tail := None, head := None, jobsN := 0\<rparr>)\<rparr>))
   }"

text \<open>\<^verbatim>\<open>thpool_jobqueue_add\<close>.  The stores happen in the order of the source and each read
  sees the stores before it, so the model is exact also when \<open>newjob_p\<close> aliases a
  queued job.  \<^verbatim>\<open>jobsN++\<close> at \<^verbatim>\<open>INT_MAX\<close> is a signed overflow.\<close>

definition thpool_jobqueue_add :: "state \<Rightarrow> addr \<Rightarrow> addr \<Rightarrow> state option" where
  "thpool_jobqueue_add s tp_p newjob_p = do {
     nj \<leftarrow> job_heap s newjob_p;
     let jh1 = (job_heap s)(newjob_p \<mapsto> nj\<lparr>job_next := None, job_prev := None\<rparr>);
     (qa, q) \<leftarrow> get_jobqueue s tp_p;
     let oldFirstJob = head q;
     (jh2, q2) \<leftarrow>
       (if jobsN q = 0 then
          Some (jh1, q\<lparr>tail := Some newjob_p, head := Some newjob_p\<rparr>)
        else do {
          ofj \<leftarrow> oldFirstJob;
          oj \<leftarrow> jh1 ofj;
          let jh' = jh1(ofj \<mapsto> oj\<lparr>job_prev := Some newjob_p\<rparr>);
          nj' \<leftarrow> jh' newjob_p;
          Some (jh'(newjob_p \<mapsto> nj'\<lparr>job_next := oldFirstJob\<rparr>), q\<lparr>head := Some newjob_p\<rparr>)
        });
     if jobsN q2 \<ge> INT_MAX then None
     else Some (s\<lparr>job_heap := jh2,
                  queue_heap := (queue_heap s)(qa \<mapsto> q2\<lparr>jobsN := jobsN q2 + 1\<rparr>)\<rparr>)
   }"

text \<open>\<^verbatim>\<open>thpool_jobqueue_removelast\<close>: the returned \<^verbatim>\<open>int\<close> and the new state.  The three
  branches are the three cases of the \<^verbatim>\<open>switch\<close>.\<close>

definition thpool_jobqueue_removelast :: "state \<Rightarrow> addr \<Rightarrow> (int \<times> state) option" where
  "thpool_jobqueue_removelast s tp_p = do {
     (qa, q) \<leftarrow> get_jobqueue s tp_p;
     let oldLastJob = tail q;
     if jobsN q = 0 then Some (- 1, s)
     else do {
       (jh, q1) \<leftarrow>
         (if jobsN q = 1 then
            Some (job_heap s, q\<lparr>tail := None, head := None\<rparr>)
          else do {
            olj \<leftarrow> oldLastJob;
            oj \<leftarrow> job_heap s olj;
            pa \<leftarrow> job_prev oj;
            pj \<leftarrow> job_heap s pa;
            let jh = (job_heap s)(pa \<mapsto> pj\<lparr>job_next := None\<rparr>);
            oj' \<leftarrow> jh olj;
            Some (jh, q\<lparr>tail := job_prev oj'\<rparr>)
          });
       if jobsN q1 \<le> INT_MIN then None
       else Some (0, s\<lparr>job_heap := jh,
                       queue_heap := (queue_heap s)(qa \<mapsto> q1\<lparr>jobsN := jobsN q1 - 1\<rparr>)\<rparr>)
     }
   }"

text \<open>\<^verbatim>\<open>thpool_jobqueue_peek\<close>.\<close>

definition thpool_jobqueue_peek :: "state \<Rightarrow> addr \<Rightarrow> ptr option" where
  "thpool_jobqueue_peek s tp_p = do {
     (qa, q) \<leftarrow> get_jobqueue s tp_p;
     Some (tail q)
   }"

text \<open>The \<^verbatim>\<open>while\<close> loop of \<^verbatim>\<open>thpool_jobqueue_empty\<close>, on the job heap, the queue structure
  and the local \<^verbatim>\<open>curjob\<close>.  \<^verbatim>\<open>free(curjob)\<close> takes the block out of the heap.  The loop
  ends for every input: a count that is not zero goes down by one in each round, and
  going down past \<^verbatim>\<open>INT_MIN\<close> is an overflow.\<close>

function empty_loop ::
  "(addr \<rightharpoonup> thpool_job_t) \<Rightarrow> thpool_jobqueue \<Rightarrow> ptr \<Rightarrow>
   ((addr \<rightharpoonup> thpool_job_t) \<times> thpool_jobqueue) option" where
  "empty_loop jh q curjob =
     (if jobsN q = 0 then Some (jh, q)
      else (case curjob of
              None \<Rightarrow> None
            | Some c \<Rightarrow>
                (case jh c of
                   None \<Rightarrow> None
                 | Some cj \<Rightarrow>
                     (if jobsN q \<le> INT_MIN then None
                      else empty_loop (jh(c := None))
                             (q\<lparr>tail := job_prev cj, jobsN := jobsN q - 1\<rparr>) (job_prev cj)))))"
  by pat_completeness auto
termination
  by (relation "measure (\<lambda>(jh, q, curjob). nat (jobsN q - INT_MIN))") auto

declare empty_loop.simps [simp del]

definition thpool_jobqueue_empty :: "state \<Rightarrow> addr \<Rightarrow> state option" where
  "thpool_jobqueue_empty s tp_p = do {
     (qa, q) \<leftarrow> get_jobqueue s tp_p;
     (jh, q') \<leftarrow> empty_loop (job_heap s) q (tail q);
     Some (s\<lparr>job_heap := jh,
             queue_heap := (queue_heap s)(qa \<mapsto> q'\<lparr>tail := None, head := None\<rparr>)\<rparr>)
   }"

section \<open>Pool construction\<close>

text \<open>\<^verbatim>\<open>fprintf(stderr, ...)\<close> appends a line, \<^verbatim>\<open>free\<close> removes a live block (\<^verbatim>\<open>free(NULL)\<close>
  does nothing), \<open>upd_pool\<close> is a store to a field of \<^verbatim>\<open>*tp_p\<close>.\<close>

definition log_err :: "state \<Rightarrow> string \<Rightarrow> state" where
  "log_err s line = s\<lparr>err_out := err_out s @ [line]\<rparr>"

definition free_pool :: "state \<Rightarrow> ptr \<Rightarrow> state option" where
  "free_pool s p =
     (case p of
        None \<Rightarrow> Some s
      | Some a \<Rightarrow> if pool_heap s a = None then None
                  else Some (s\<lparr>pool_heap := (pool_heap s)(a := None)\<rparr>))"

definition free_ids :: "state \<Rightarrow> ptr \<Rightarrow> state option" where
  "free_ids s p =
     (case p of
        None \<Rightarrow> Some s
      | Some a \<Rightarrow> if ids_heap s a = None then None
                  else Some (s\<lparr>ids_heap := (ids_heap s)(a := None)\<rparr>))"

definition free_job :: "state \<Rightarrow> ptr \<Rightarrow> state option" where
  "free_job s p =
     (case p of
        None \<Rightarrow> Some s
      | Some a \<Rightarrow> if job_heap s a = None then None
                  else Some (s\<lparr>job_heap := (job_heap s)(a := None)\<rparr>))"

definition upd_pool :: "state \<Rightarrow> addr \<Rightarrow> (thpool_t \<Rightarrow> thpool_t) \<Rightarrow> state option" where
  "upd_pool s tp_p f = do {
     pool \<leftarrow> pool_heap s tp_p;
     Some (s\<lparr>pool_heap := (pool_heap s)(tp_p \<mapsto> f pool)\<rparr>)
   }"

text \<open>The three semaphores of a pool, and the POSIX operations on them.  \<^verbatim>\<open>sem_wait\<close> on
  a counter that is zero does not return (\<open>Wait_blocks\<close>) until another thread has
  posted; it can also fail (\<open>Wait_failed\<close>, a return value that is not zero), which the
  environment decides: the argument \<open>fails\<close>.  Using a semaphore that is not
  initialised is undefined.\<close>

datatype sem_name = MUTEX | NEMPTY | NSTORED

fun get_sem :: "sem_name \<Rightarrow> thpool_t \<Rightarrow> sem_t" where
  "get_sem MUTEX pool = mutex pool"
| "get_sem NEMPTY pool = nEmpty pool"
| "get_sem NSTORED pool = nStored pool"

fun set_sem :: "sem_name \<Rightarrow> sem_t \<Rightarrow> thpool_t \<Rightarrow> thpool_t" where
  "set_sem MUTEX v pool = pool\<lparr>mutex := v\<rparr>"
| "set_sem NEMPTY v pool = pool\<lparr>nEmpty := v\<rparr>"
| "set_sem NSTORED v pool = pool\<lparr>nStored := v\<rparr>"

definition sem_init :: "state \<Rightarrow> addr \<Rightarrow> sem_name \<Rightarrow> nat \<Rightarrow> state option" where
  "sem_init s tp_p sem v = upd_pool s tp_p (set_sem sem (Some v))"

datatype wait_result = Acquired state | Wait_failed | Wait_blocks | Wait_undefined

definition sem_wait :: "state \<Rightarrow> addr \<Rightarrow> sem_name \<Rightarrow> bool \<Rightarrow> wait_result" where
  "sem_wait s tp_p sem fails =
     (case pool_heap s tp_p of
        None \<Rightarrow> Wait_undefined
      | Some pool \<Rightarrow>
          (case get_sem sem pool of
             None \<Rightarrow> Wait_undefined
           | Some v \<Rightarrow>
               if fails then Wait_failed
               else (case v of
                       0 \<Rightarrow> Wait_blocks
                     | Suc k \<Rightarrow>
                         Acquired (s\<lparr>pool_heap := (pool_heap s)(tp_p \<mapsto> set_sem sem (Some k) pool)\<rparr>))))"

definition sem_post :: "state \<Rightarrow> addr \<Rightarrow> sem_name \<Rightarrow> state option" where
  "sem_post s tp_p sem = do {
     pool \<leftarrow> pool_heap s tp_p;
     v \<leftarrow> get_sem sem pool;
     Some (s\<lparr>pool_heap := (pool_heap s)(tp_p \<mapsto> set_sem sem (Some (Suc v)) pool)\<rparr>)
   }"

text \<open>\<^verbatim>\<open>pthread_create(&(tp_p->threads[t]), NULL, thpool_thread_do, tp_p)\<close>.  The environment
  decides its outcome: \<open>Inr tid\<close> starts a worker with thread id \<open>tid\<close>, which is stored
  in slot \<open>t\<close>; \<open>Inl reason\<close> is a failure, \<open>reason\<close> being the text \<^verbatim>\<open>strerror(errno)\<close>
  gives at that moment.  The first component of the result says whether the call
  returned 0.\<close>

definition pthread_create :: "state \<Rightarrow> addr \<Rightarrow> nat \<Rightarrow> string + nat \<Rightarrow> (bool \<times> state) option" where
  "pthread_create s tp_p t outcome = do {
     pool \<leftarrow> pool_heap s tp_p;
     ta \<leftarrow> threads pool;
     ids \<leftarrow> ids_heap s ta;
     if t < length ids then
       (case outcome of
          Inl reason \<Rightarrow> Some (False, s)
        | Inr tid \<Rightarrow> Some (True, s\<lparr>ids_heap := (ids_heap s)(ta \<mapsto> ids[t := Some tid]),
                                    workers := workers s @ [(tid, tp_p)]\<rparr>))
     else None
   }"

definition spawn_failed_line :: "string + nat \<Rightarrow> string" where
  "spawn_failed_line outcome =
     ''created thread pool failed '' @ (case outcome of Inl reason \<Rightarrow> reason | Inr _ \<Rightarrow> [])"

text \<open>The \<^verbatim>\<open>for\<close> loop of \<^verbatim>\<open>thpool_init\<close>, from \<open>t\<close> up to the local thread count \<open>n\<close>.  A
  failed \<^verbatim>\<open>pthread_create\<close> is reported and the loop goes on.\<close>

function spawn_loop :: "addr \<Rightarrow> (nat \<Rightarrow> string + nat) \<Rightarrow> int \<Rightarrow> int \<Rightarrow> state \<Rightarrow> state option" where
  "spawn_loop tp_p create t n s =
     (if t < n then
        (case pthread_create s tp_p (nat t) (create (nat t)) of
           None \<Rightarrow> None
         | Some (ok, s') \<Rightarrow>
             spawn_loop tp_p create (t + 1) n
               (if ok then s'
                else log_err s' (spawn_failed_line (create (nat t)))))
      else Some s)"
  by pat_completeness auto
termination
  by (relation "measure (\<lambda>(tp_p, create, t, n, s). nat (n - t))") auto

declare spawn_loop.simps [simp del]

text \<open>\<^verbatim>\<open>thpool_init\<close>.  \<open>m_pool\<close>, \<open>m_threads\<close> and \<open>m_queue\<close> are the results of its three
  allocations (the third one is made by \<^verbatim>\<open>thpool_jobqueue_init\<close>) and \<open>create\<close> gives the
  outcome of the \<open>t\<close>-th \<^verbatim>\<open>pthread_create\<close>.  The result is the returned pointer and the
  new state.  The array of thread ids has one slot per thread (the product
  \<^verbatim>\<open>threadsN*sizeof(pthread_t)\<close> is taken not to wrap in \<^verbatim>\<open>size_t\<close>), and \<^verbatim>\<open>sem_init\<close> is taken
  to succeed, as the code does.  The function runs as one piece: the workers it starts
  wait on \<^verbatim>\<open>nStored\<close>, which stays 0 until a job is submitted through the pointer the
  function returns.\<close>

definition thpool_init ::
  "state \<Rightarrow> int \<Rightarrow> (addr \<times> thpool_t) option \<Rightarrow> addr option \<Rightarrow>
   (addr \<times> thpool_jobqueue) option \<Rightarrow> (nat \<Rightarrow> string + nat) \<Rightarrow> (ptr \<times> state) option" where
  "thpool_init s threadsN0 m_pool m_threads m_queue create =
     (let threadsN' = (if threadsN0 = 0 \<or> threadsN0 < 1 then 1 else threadsN0) in
      case m_pool of
        None \<Rightarrow>
          Some (None, log_err s ''thpool_init(): Could not allocate memory for thread pool'')
      | Some (tp_p, pool0) \<Rightarrow> do {
          let s1 = s\<lparr>pool_heap := (pool_heap s)(tp_p \<mapsto> pool0)\<rparr>;
          let s2 = (case m_threads of
                      None \<Rightarrow> s1
                    | Some ta \<Rightarrow> s1\<lparr>ids_heap := (ids_heap s1)(ta \<mapsto> replicate (nat threadsN') None)\<rparr>);
          s3 \<leftarrow> upd_pool s2 tp_p (\<lambda>pool. pool\<lparr>threads := m_threads\<rparr>);
          if m_threads = None then do {
            s4 \<leftarrow> free_pool
                    (log_err s3 ''thpool_init(): Could not allocate memory for thread IDs'')
                    (Some tp_p);
            Some (None, s4)
          } else do {
            s4 \<leftarrow> upd_pool s3 tp_p (\<lambda>pool. pool\<lparr>threadsN := threadsN'\<rparr>);
            (r, s5) \<leftarrow> thpool_jobqueue_init s4 tp_p m_queue;
            if r = - 1 then do {
              let s6 = log_err s5 ''thpool_init(): Could not allocate memory for job queue'';
              pool \<leftarrow> pool_heap s6 tp_p;
              s7 \<leftarrow> free_ids s6 (threads pool);
              s8 \<leftarrow> free_pool s7 (Some tp_p);
              Some (None, s8)
            } else do {
              s6 \<leftarrow> sem_init s5 tp_p MUTEX 1;
              s7 \<leftarrow> sem_init s6 tp_p NEMPTY (nat threadsN');
              s8 \<leftarrow> sem_init s7 tp_p NSTORED 0;
              s9 \<leftarrow> spawn_loop tp_p create 0 threadsN' s8;
              Some (Some tp_p, s9)
            }
          }
        })"

section \<open>The threads\<close>

text \<open>A thread runs concurrently with others, so its code is a step function on the
  shared state and the thread's own program counter and locals.  \<open>Next\<close> is one atomic
  step, \<open>Stuck\<close> means that the thread cannot move now (it waits on a semaphore, it has
  returned, or the process has exited) and \<open>Undefined\<close> is undefined behaviour.  Reads
  and writes of the shared state are taken to be sequentially consistent.\<close>

datatype 't step = Next state 't | Stuck | Undefined

text \<open>The worker \<^verbatim>\<open>thpool_thread_do\<close>.  Its program counters: the test of the \<^verbatim>\<open>while\<close>,
  \<^verbatim>\<open>sem_wait(&tp_p->nStored)\<close>, the test of the inner \<^verbatim>\<open>if\<close>, \<^verbatim>\<open>sem_wait(&tp_p->mutex)\<close>, the
  critical section (peek, the two reads through \<^verbatim>\<open>job_p\<close>, removelast), the two
  \<^verbatim>\<open>sem_post\<close>s, the call \<^verbatim>\<open>func_buff(arg_buff)\<close>, \<^verbatim>\<open>free(job_p)\<close> and the \<^verbatim>\<open>return\<close>.\<close>

datatype wpc = W_while | W_wait | W_if | W_lock | W_critical | W_unlock | W_post | W_call | W_free
  | W_return

record worker =
  w_pc :: wpc
  func_buff :: nat
  arg_buff :: nat
  job_p :: ptr

text \<open>The critical section of the worker: \<^verbatim>\<open>job_p = thpool_jobqueue_peek(tp_p)\<close>, the reads
  \<^verbatim>\<open>job_p->function\<close> and \<^verbatim>\<open>job_p->arg\<close> with no test of \<^verbatim>\<open>job_p\<close>, then
  \<^verbatim>\<open>thpool_jobqueue_removelast(tp_p)\<close>, whose result is dropped.\<close>

definition worker_critical :: "state \<Rightarrow> addr \<Rightarrow> (ptr \<times> nat \<times> nat \<times> state) option" where
  "worker_critical s tp_p = do {
     job_p \<leftarrow> thpool_jobqueue_peek s tp_p;
     a \<leftarrow> job_p;
     j \<leftarrow> job_heap s a;
     let func_buff = job_function j;
     let arg_buff = job_arg j;
     (r, s') \<leftarrow> thpool_jobqueue_removelast s tp_p;
     Some (job_p, func_buff, arg_buff, s')
   }"

definition proc_exit :: "state \<Rightarrow> int \<Rightarrow> state" where
  "proc_exit s status = s\<lparr>exit_status := Some status\<rparr>"

text \<open>One step of \<^verbatim>\<open>thpool_thread_do\<close>.  \<open>wait_fails\<close> says whether the \<^verbatim>\<open>sem_wait\<close> of this
  step, if it is one, fails; only the first \<^verbatim>\<open>sem_wait\<close> has its result tested.  The call
  of the job is recorded in \<open>executed\<close>; what the job itself does to the state is left
  to the environment.\<close>

definition thpool_thread_do :: "addr \<Rightarrow> bool \<Rightarrow> state \<Rightarrow> worker \<Rightarrow> worker step" where
  "thpool_thread_do tp_p wait_fails s w =
     (if exit_status s \<noteq> None then Stuck
      else case w_pc w of
        W_while \<Rightarrow> Next s (w\<lparr>w_pc := (if thpool_keepalive s \<noteq> 0 then W_wait else W_return)\<rparr>)
      | W_wait \<Rightarrow>
          (case sem_wait s tp_p NSTORED wait_fails of
             Wait_undefined \<Rightarrow> Undefined
           | Wait_blocks \<Rightarrow> Stuck
           | Wait_failed \<Rightarrow>
               Next (proc_exit (log_err s ''thpool_thread_do(): Waiting for semaphore'') 1) w
           | Acquired s' \<Rightarrow> Next s' (w\<lparr>w_pc := W_if\<rparr>))
      | W_if \<Rightarrow> Next s (w\<lparr>w_pc := (if thpool_keepalive s \<noteq> 0 then W_lock else W_while)\<rparr>)
      | W_lock \<Rightarrow>
          (case sem_wait s tp_p MUTEX wait_fails of
             Wait_undefined \<Rightarrow> Undefined
           | Wait_blocks \<Rightarrow> Stuck
           | Wait_failed \<Rightarrow> Next s (w\<lparr>w_pc := W_critical\<rparr>)
           | Acquired s' \<Rightarrow> Next s' (w\<lparr>w_pc := W_critical\<rparr>))
      | W_critical \<Rightarrow>
          (case worker_critical s tp_p of
             None \<Rightarrow> Undefined
           | Some (jp, f, a, s') \<Rightarrow>
               Next s' (w\<lparr>w_pc := W_unlock, func_buff := f, arg_buff := a, job_p := jp\<rparr>))
      | W_unlock \<Rightarrow>
          (case sem_post s tp_p MUTEX of
             None \<Rightarrow> Undefined
           | Some s' \<Rightarrow> Next s' (w\<lparr>w_pc := W_post\<rparr>))
      | W_post \<Rightarrow>
          (case sem_post s tp_p NEMPTY of
             None \<Rightarrow> Undefined
           | Some s' \<Rightarrow> Next s' (w\<lparr>w_pc := W_call\<rparr>))
      | W_call \<Rightarrow>
          Next (s\<lparr>executed := executed s @ [(func_buff w, arg_buff w)]\<rparr>) (w\<lparr>w_pc := W_free\<rparr>)
      | W_free \<Rightarrow>
          (case free_job s (job_p w) of
             None \<Rightarrow> Undefined
           | Some s' \<Rightarrow> Next s' (w\<lparr>w_pc := W_while\<rparr>))
      | W_return \<Rightarrow> Stuck)"

text \<open>The runs of one worker among other threads: its own steps, recorded by the
  program counter each was taken at, and steps of the environment, which change the
  shared state in any way but one: \<open>thpool_keepalive\<close> is \<^verbatim>\<open>static\<close> and the only
  assignment to it in the file is \<^verbatim>\<open>thpool_keepalive=0\<close> in \<^verbatim>\<open>thpool_destroy\<close>, so no
  step makes it nonzero again.  Nothing moves once the process has exited.\<close>

inductive worker_run :: "addr \<Rightarrow> state \<times> worker \<Rightarrow> wpc list \<Rightarrow> state \<times> worker \<Rightarrow> bool"
  for tp_p :: addr and c :: "state \<times> worker" where
  w_start: "worker_run tp_p c [] c"
| w_step: "worker_run tp_p c tr (s, w) \<Longrightarrow> thpool_thread_do tp_p wait_fails s w = Next s' w' \<Longrightarrow>
           worker_run tp_p c (tr @ [w_pc w]) (s', w')"
| w_env: "worker_run tp_p c tr (s, w) \<Longrightarrow> exit_status s = None \<Longrightarrow>
          (thpool_keepalive s = 0 \<longrightarrow> thpool_keepalive s' = 0) \<Longrightarrow>
          worker_run tp_p c tr (s', w)"

text \<open>The submitter \<^verbatim>\<open>thpool_add_work\<close>, in the same style: \<^verbatim>\<open>malloc\<close> with its test, the
  two stores to the new job, the two \<^verbatim>\<open>sem_wait\<close>s (results dropped), the enqueue, the
  two \<^verbatim>\<open>sem_post\<close>s and the \<^verbatim>\<open>return\<close> with its value.  \<open>m\<close> is the result of the
  \<^verbatim>\<open>malloc\<close>.\<close>

datatype apc = A_malloc | A_set | A_wait_empty | A_wait_mutex | A_add | A_post_mutex | A_post_stored
  | A_return int

record submitter =
  a_pc :: apc
  newJob :: ptr

definition thpool_add_work ::
  "addr \<Rightarrow> nat \<Rightarrow> nat \<Rightarrow> (addr \<times> thpool_job_t) option \<Rightarrow> bool \<Rightarrow> state \<Rightarrow> submitter \<Rightarrow>
   submitter step" where
  "thpool_add_work tp_p function_p arg_p m wait_fails s a =
     (if exit_status s \<noteq> None then Stuck
      else case a_pc a of
        A_malloc \<Rightarrow>
          (case m of
             None \<Rightarrow>
               Next (proc_exit
                      (log_err s ''thpool_add_work(): Could not allocate memory for new job'') 1) a
           | Some (p, j0) \<Rightarrow>
               Next (s\<lparr>job_heap := (job_heap s)(p \<mapsto> j0)\<rparr>) (a\<lparr>a_pc := A_set, newJob := Some p\<rparr>))
      | A_set \<Rightarrow>
          (case newJob a of
             None \<Rightarrow> Undefined
           | Some p \<Rightarrow>
               (case job_heap s p of
                  None \<Rightarrow> Undefined
                | Some j \<Rightarrow>
                    Next (s\<lparr>job_heap := (job_heap s)(p \<mapsto> j\<lparr>job_function := function_p,
                                                               job_arg := arg_p\<rparr>)\<rparr>)
                         (a\<lparr>a_pc := A_wait_empty\<rparr>)))
      | A_wait_empty \<Rightarrow>
          (case sem_wait s tp_p NEMPTY wait_fails of
             Wait_undefined \<Rightarrow> Undefined
           | Wait_blocks \<Rightarrow> Stuck
           | Wait_failed \<Rightarrow> Next s (a\<lparr>a_pc := A_wait_mutex\<rparr>)
           | Acquired s' \<Rightarrow> Next s' (a\<lparr>a_pc := A_wait_mutex\<rparr>))
      | A_wait_mutex \<Rightarrow>
          (case sem_wait s tp_p MUTEX wait_fails of
             Wait_undefined \<Rightarrow> Undefined
           | Wait_blocks \<Rightarrow> Stuck
           | Wait_failed \<Rightarrow> Next s (a\<lparr>a_pc := A_add\<rparr>)
           | Acquired s' \<Rightarrow> Next s' (a\<lparr>a_pc := A_add\<rparr>))
      | A_add \<Rightarrow>
          (case newJob a of
             None \<Rightarrow> Undefined
           | Some p \<Rightarrow>
               (case thpool_jobqueue_add s tp_p p of
                  None \<Rightarrow> Undefined
                | Some s' \<Rightarrow> Next s' (a\<lparr>a_pc := A_post_mutex\<rparr>)))
      | A_post_mutex \<Rightarrow>
          (case sem_post s tp_p MUTEX of
             None \<Rightarrow> Undefined
           | Some s' \<Rightarrow> Next s' (a\<lparr>a_pc := A_post_stored\<rparr>))
      | A_post_stored \<Rightarrow>
          (case sem_post s tp_p NSTORED of
             None \<Rightarrow> Undefined
           | Some s' \<Rightarrow> Next s' (a\<lparr>a_pc := A_return 0\<rparr>))
      | A_return v \<Rightarrow> Stuck)"

inductive submit_run ::
  "addr \<Rightarrow> nat \<Rightarrow> nat \<Rightarrow> state \<times> submitter \<Rightarrow> state \<times> submitter \<Rightarrow> bool"
  for tp_p :: addr and function_p :: nat and arg_p :: nat and c :: "state \<times> submitter" where
  a_start: "submit_run tp_p function_p arg_p c c"
| a_step: "submit_run tp_p function_p arg_p c (s, a) \<Longrightarrow>
           thpool_add_work tp_p function_p arg_p m wait_fails s a = Next s' a' \<Longrightarrow>
           submit_run tp_p function_p arg_p c (s', a')"
| a_env: "submit_run tp_p function_p arg_p c (s, a) \<Longrightarrow> exit_status s = None \<Longrightarrow>
          submit_run tp_p function_p arg_p c (s', a)"

section \<open>Specification vocabulary\<close>

text \<open>\<open>dll jh pv ns nx\<close>: the jobs \<open>ns\<close> are live in \<open>jh\<close> and doubly linked in this order,
  \<^verbatim>\<open>next\<close> running from each job to its successor and \<^verbatim>\<open>prev\<close> back; the first job's
  \<^verbatim>\<open>prev\<close> is \<open>pv\<close> and the last job's \<^verbatim>\<open>next\<close> is \<open>nx\<close>.\<close>

fun dll :: "(addr \<rightharpoonup> thpool_job_t) \<Rightarrow> ptr \<Rightarrow> addr list \<Rightarrow> ptr \<Rightarrow> bool" where
  "dll jh pv [] nx = True"
| "dll jh pv (a # as) nx =
     (case jh a of
        None \<Rightarrow> False
      | Some j \<Rightarrow> job_prev j = pv \<and> job_next j = (case as of [] \<Rightarrow> nx | b # _ \<Rightarrow> Some b)
                  \<and> dll jh (Some a) as nx)"

text \<open>\<open>queue_rel s tp_p ns\<close>: the queue of the pool at \<open>tp_p\<close> holds exactly the jobs \<open>ns\<close>,
  the newest (\<^verbatim>\<open>head\<close>) first and the oldest (\<^verbatim>\<open>tail\<close>) last.  This is what a well-formed
  queue state is.\<close>

definition queue_rel :: "state \<Rightarrow> addr \<Rightarrow> addr list \<Rightarrow> bool" where
  "queue_rel s tp_p ns =
     (case get_jobqueue s tp_p of
        None \<Rightarrow> False
      | Some (qa, q) \<Rightarrow>
          jobsN q = int (length ns) \<and>
          head q = (case ns of [] \<Rightarrow> None | a # _ \<Rightarrow> Some a) \<and>
          tail q = (if ns = [] then None else Some (last ns)) \<and>
          distinct ns \<and> dll (job_heap s) None ns None)"

text \<open>What a job is to run: its \<^verbatim>\<open>function\<close> and its \<^verbatim>\<open>arg\<close>.\<close>

definition payload :: "state \<Rightarrow> addr \<Rightarrow> (nat \<times> nat) option" where
  "payload s a = map_option (\<lambda>j. (job_function j, job_arg j)) (job_heap s a)"

text \<open>Sequences of queue operations.  A dequeue is \<^verbatim>\<open>thpool_jobqueue_peek\<close> followed by
  \<^verbatim>\<open>thpool_jobqueue_removelast\<close>; it is successful when the latter returns 0, and then
  the job it returns is the one peeked.  \<open>run_ops\<close> runs the code and collects the jobs
  the successful dequeues returned, \<open>enqueued\<close> lists the jobs a sequence enqueues, in
  the order of submission, and \<open>ops_ok\<close> says that every enqueue is given a live job
  that is not in the queue at that moment (\<open>q\<close> is the queue, newest first).
  \<open>count_ok n ops\<close> says that no enqueue of \<open>ops\<close> finds the queue at size \<^verbatim>\<open>INT_MAX\<close>, the
  queue holding \<open>n\<close> jobs at the start: the size at each enqueue, not the number of
  enqueues, is what \<^verbatim>\<open>jobsN++\<close> can overflow on.\<close>

datatype qop = Enqueue addr | Dequeue

fun run_ops :: "state \<Rightarrow> addr \<Rightarrow> qop list \<Rightarrow> (ptr list \<times> state) option" where
  "run_ops s tp_p [] = Some ([], s)"
| "run_ops s tp_p (Enqueue p # ops) = do {
     s' \<leftarrow> thpool_jobqueue_add s tp_p p;
     run_ops s' tp_p ops
   }"
| "run_ops s tp_p (Dequeue # ops) = do {
     job_p \<leftarrow> thpool_jobqueue_peek s tp_p;
     (r, s') \<leftarrow> thpool_jobqueue_removelast s tp_p;
     (served, s'') \<leftarrow> run_ops s' tp_p ops;
     Some (if r = 0 then job_p # served else served, s'')
   }"

fun enqueued :: "qop list \<Rightarrow> addr list" where
  "enqueued [] = []"
| "enqueued (Enqueue p # ops) = p # enqueued ops"
| "enqueued (Dequeue # ops) = enqueued ops"

fun ops_ok :: "(addr \<Rightarrow> bool) \<Rightarrow> addr list \<Rightarrow> qop list \<Rightarrow> bool" where
  "ops_ok live q [] = True"
| "ops_ok live q (Enqueue p # ops) = (live p \<and> p \<notin> set q \<and> ops_ok live (p # q) ops)"
| "ops_ok live q (Dequeue # ops) = ops_ok live (butlast q) ops"

fun count_ok :: "nat \<Rightarrow> qop list \<Rightarrow> bool" where
  "count_ok n [] = True"
| "count_ok n (Enqueue p # ops) = (int n < INT_MAX \<and> count_ok (Suc n) ops)"
| "count_ok n (Dequeue # ops) = count_ok (n - 1) ops"

text \<open>The jobs reached from a pointer along \<^verbatim>\<open>next\<close> up to \<^verbatim>\<open>NULL\<close>: \<open>None\<close> when the walk
  meets a pointer to no live job or does not end within \<open>fuel\<close> jobs.\<close>

fun linked_nodes :: "(addr \<rightharpoonup> thpool_job_t) \<Rightarrow> nat \<Rightarrow> ptr \<Rightarrow> addr list option" where
  "linked_nodes jh fuel None = Some []"
| "linked_nodes jh 0 (Some a) = None"
| "linked_nodes jh (Suc fuel) (Some a) =
     (case jh a of
        None \<Rightarrow> None
      | Some j \<Rightarrow> map_option (Cons a) (linked_nodes jh fuel (job_next j)))"

definition queue_nodes :: "state \<Rightarrow> addr \<Rightarrow> addr list option" where
  "queue_nodes s tp_p = do {
     (qa, q) \<leftarrow> get_jobqueue s tp_p;
     linked_nodes (job_heap s) (nat (jobsN q)) (head q)
   }"

text \<open>The invariant of the queue as the specification words it: the size is never
  negative and is the number of jobs linked from the head; both end references are
  null exactly when the size is 0; both point to the same job exactly when it is 1.\<close>

definition queue_invariant :: "state \<Rightarrow> addr \<Rightarrow> bool" where
  "queue_invariant s tp_p =
     (case get_jobqueue s tp_p of
        None \<Rightarrow> False
      | Some (qa, q) \<Rightarrow>
          0 \<le> jobsN q \<and>
          map_option length (linked_nodes (job_heap s) (nat (jobsN q)) (head q)) = Some (nat (jobsN q)) \<and>
          ((head q = None \<and> tail q = None) \<longleftrightarrow> jobsN q = 0) \<and>
          ((head q \<noteq> None \<and> head q = tail q) \<longleftrightarrow> jobsN q = 1))"

text \<open>The states a queue goes through: \<^verbatim>\<open>thpool_jobqueue_init\<close>, then any of
  \<^verbatim>\<open>thpool_jobqueue_add\<close> (of a job that is not in the queue), \<^verbatim>\<open>thpool_jobqueue_removelast\<close>
  and \<^verbatim>\<open>thpool_jobqueue_empty\<close>, in any order, and meanwhile allocations of new jobs and
  releases of jobs that are not in the queue.\<close>

inductive reachable :: "addr \<Rightarrow> state \<Rightarrow> bool" for tp_p :: addr where
  r_init: "thpool_jobqueue_init s tp_p (Some (qa, q0)) = Some (0, s') \<Longrightarrow> reachable tp_p s'"
| r_add: "reachable tp_p s \<Longrightarrow> queue_nodes s tp_p = Some ns \<Longrightarrow> p \<notin> set ns \<Longrightarrow>
          thpool_jobqueue_add s tp_p p = Some s' \<Longrightarrow> reachable tp_p s'"
| r_removelast: "reachable tp_p s \<Longrightarrow> thpool_jobqueue_removelast s tp_p = Some (r, s') \<Longrightarrow>
          reachable tp_p s'"
| r_empty: "reachable tp_p s \<Longrightarrow> thpool_jobqueue_empty s tp_p = Some s' \<Longrightarrow> reachable tp_p s'"
| r_malloc: "reachable tp_p s \<Longrightarrow> job_heap s p = None \<Longrightarrow>
          reachable tp_p (s\<lparr>job_heap := (job_heap s)(p \<mapsto> j)\<rparr>)"
| r_free: "reachable tp_p s \<Longrightarrow> queue_nodes s tp_p = Some ns \<Longrightarrow> p \<notin> set ns \<Longrightarrow>
          job_heap s p \<noteq> None \<Longrightarrow> reachable tp_p (s\<lparr>job_heap := (job_heap s)(p := None)\<rparr>)"

text \<open>The thread ids a run of \<^verbatim>\<open>pthread_create\<close> calls starts, the lines it reports, the
  state \<^verbatim>\<open>thpool_init\<close> has built when it enters its loop, and what the loop changes.\<close>

definition spawned :: "(nat \<Rightarrow> string + nat) \<Rightarrow> nat list \<Rightarrow> nat list" where
  "spawned create ts = List.map_filter (\<lambda>t. case create t of Inl _ \<Rightarrow> None | Inr tid \<Rightarrow> Some tid) ts"

definition spawn_failures :: "(nat \<Rightarrow> string + nat) \<Rightarrow> nat list \<Rightarrow> string list" where
  "spawn_failures create ts =
     List.map_filter (\<lambda>t. case create t of
                             Inl reason \<Rightarrow> Some (spawn_failed_line (Inl reason))
                           | Inr _ \<Rightarrow> None) ts"

definition initial_pool_state :: "state \<Rightarrow> int \<Rightarrow> addr \<Rightarrow> addr \<Rightarrow> addr \<Rightarrow> state" where
  "initial_pool_state s n tp_p ta qa =
     s\<lparr>ids_heap := (ids_heap s)(ta \<mapsto> replicate (nat n) None),
       queue_heap := (queue_heap s)(qa \<mapsto> \<lparr>head = None, tail = None, jobsN = 0\<rparr>),
       pool_heap := (pool_heap s)(tp_p \<mapsto>
          \<lparr>threads = Some ta, threadsN = n, jobqueue = Some qa,
           mutex = Some 1, nEmpty = Some (nat n), nStored = Some 0\<rparr>)\<rparr>"

definition spawn_post ::
  "state \<Rightarrow> state \<Rightarrow> addr \<Rightarrow> addr \<Rightarrow> (nat \<Rightarrow> string + nat) \<Rightarrow> nat list \<Rightarrow> bool" where
  "spawn_post s s' tp_p ta create ts \<longleftrightarrow>
     map_option length (ids_heap s' ta) = map_option length (ids_heap s ta) \<and>
     workers s' = workers s @ map (\<lambda>tid. (tid, tp_p)) (spawned create ts) \<and>
     err_out s' = err_out s @ spawn_failures create ts \<and>
     pool_heap s' = pool_heap s \<and> queue_heap s' = queue_heap s \<and> job_heap s' = job_heap s \<and>
     thpool_keepalive s' = thpool_keepalive s \<and> executed s' = executed s \<and>
     exit_status s' = exit_status s"

text \<open>A \<^verbatim>\<open>malloc\<close> never returns a block that is live.\<close>

definition malloc_fresh :: "(addr \<rightharpoonup> 'a) \<Rightarrow> addr option \<Rightarrow> bool" where
  "malloc_fresh h m = (case m of None \<Rightarrow> True | Some a \<Rightarrow> h a = None)"

text \<open>Concrete states: before any pool exists; a pool of two workers at address 0 with
  an empty queue and two jobs allocated at 1 and 2; the same pool with both jobs
  queued, job 1 first.  And the indeterminate contents two allocations may come with.\<close>

definition boot_state :: state where
  "boot_state =
     \<lparr>pool_heap = Map.empty, ids_heap = Map.empty, queue_heap = Map.empty, job_heap = Map.empty,
      thpool_keepalive = 1, err_out = [], executed = [], workers = [], exit_status = None\<rparr>"

definition ready_state :: state where
  "ready_state =
     \<lparr>pool_heap = [0 \<mapsto> \<lparr>threads = Some 0, threadsN = 2, jobqueue = Some 0,
                          mutex = Some 1, nEmpty = Some 2, nStored = Some 0\<rparr>],
      ids_heap = [0 \<mapsto> [Some 5, Some 6]],
      queue_heap = [0 \<mapsto> \<lparr>head = None, tail = None, jobsN = 0\<rparr>],
      job_heap = [1 \<mapsto> \<lparr>job_function = 7, job_arg = 8, job_next = None, job_prev = None\<rparr>,
                  2 \<mapsto> \<lparr>job_function = 9, job_arg = 10, job_next = None, job_prev = None\<rparr>],
      thpool_keepalive = 1, err_out = [], executed = [], workers = [(5, 0), (6, 0)],
      exit_status = None\<rparr>"

definition queued_state :: state where
  "queued_state =
     \<lparr>pool_heap = [0 \<mapsto> \<lparr>threads = Some 0, threadsN = 2, jobqueue = Some 0,
                          mutex = Some 1, nEmpty = Some 0, nStored = Some 2\<rparr>],
      ids_heap = [0 \<mapsto> [Some 5, Some 6]],
      queue_heap = [0 \<mapsto> \<lparr>head = Some 2, tail = Some 1, jobsN = 2\<rparr>],
      job_heap = [1 \<mapsto> \<lparr>job_function = 7, job_arg = 8, job_next = None, job_prev = Some 2\<rparr>,
                  2 \<mapsto> \<lparr>job_function = 9, job_arg = 10, job_next = Some 1, job_prev = None\<rparr>],
      thpool_keepalive = 1, err_out = [], executed = [], workers = [(5, 0), (6, 0)],
      exit_status = None\<rparr>"

definition junk_pool :: thpool_t where
  "junk_pool = \<lparr>threads = Some 99, threadsN = - 7, jobqueue = Some 98,
                 mutex = None, nEmpty = Some 3, nStored = None\<rparr>"

definition junk_queue :: thpool_jobqueue where
  "junk_queue = \<lparr>head = Some 97, tail = None, jobsN = 41\<rparr>"

text \<open>A worker that has just come back from \<^verbatim>\<open>sem_wait(&tp_p->nStored)\<close>, and a submitter
  that enters \<^verbatim>\<open>thpool_add_work\<close>.\<close>

definition idle_worker :: worker where
  "idle_worker = \<lparr>w_pc = W_if, func_buff = 0, arg_buff = 0, job_p = None\<rparr>"

definition new_submitter :: submitter where
  "new_submitter = \<lparr>a_pc = A_malloc, newJob = None\<rparr>"

section \<open>Linked segments\<close>

lemma dll_upd_other: "a \<notin> set ns \<Longrightarrow> dll (jh(a := v)) pv ns nx = dll jh pv ns nx"
  by (induction ns arbitrary: pv) (auto split: option.splits)

lemma dll_live: "dll jh pv ns nx \<Longrightarrow> a \<in> set ns \<Longrightarrow> \<exists>j. jh a = Some j"
  by (induction ns arbitrary: pv) (auto split: option.splits)

lemma dll_snoc:
  "dll jh pv (xs @ [c]) nx =
     (dll jh pv xs (Some c) \<and>
      (case jh c of None \<Rightarrow> False
       | Some j \<Rightarrow> job_prev j = (if xs = [] then pv else Some (last xs)) \<and> job_next j = nx))"
  by (induction xs arbitrary: pv) (auto split: option.splits list.splits)

lemma dll_set_last_next:
  "dll jh pv xs nx \<Longrightarrow> distinct xs \<Longrightarrow> xs \<noteq> [] \<Longrightarrow> jh (last xs) = Some j \<Longrightarrow>
   dll (jh(last xs \<mapsto> j\<lparr>job_next := nx'\<rparr>)) pv xs nx'"
proof (induction xs arbitrary: pv)
  case Nil
  then show ?case by simp
next
  case (Cons a xs)
  show ?case
  proof (cases "xs = []")
    case True
    with Cons.prems show ?thesis by (auto split: option.splits)
  next
    case False
    with Cons.prems have "a \<noteq> last xs" by auto
    with Cons False show ?thesis by (auto split: option.splits list.splits)
  qed
qed

lemma dll_linked_nodes:
  "dll jh pv ns None \<Longrightarrow>
   linked_nodes jh (length ns) (case ns of [] \<Rightarrow> None | a # _ \<Rightarrow> Some a) = Some ns"
proof (induction ns arbitrary: pv)
  case Nil
  then show ?case by simp
next
  case (Cons a as)
  from Cons.prems obtain j where j: "jh a = Some j"
    "job_next j = (case as of [] \<Rightarrow> None | b # _ \<Rightarrow> Some b)" "dll jh (Some a) as None"
    by (auto split: option.splits)
  from Cons.IH[OF j(3)] j(1,2) show ?case by simp
qed

section \<open>The queue operations on a well-formed queue\<close>

lemma queue_relD:
  "queue_rel s tp_p ns \<Longrightarrow> \<exists>pool qa q.
      pool_heap s tp_p = Some pool \<and> jobqueue pool = Some qa \<and> queue_heap s qa = Some q \<and>
      get_jobqueue s tp_p = Some (qa, q) \<and>
      jobsN q = int (length ns) \<and>
      head q = (case ns of [] \<Rightarrow> None | a # _ \<Rightarrow> Some a) \<and>
      tail q = (if ns = [] then None else Some (last ns)) \<and>
      distinct ns \<and> dll (job_heap s) None ns None"
  by (auto simp: queue_rel_def get_jobqueue_def split: option.splits Option.bind_splits)

lemma init_rel:
  "thpool_jobqueue_init s tp_p (Some (qa, q0)) = Some (r, s') \<Longrightarrow> r = 0 \<and> queue_rel s' tp_p []"
  by (auto simp: thpool_jobqueue_init_def queue_rel_def get_jobqueue_def split: Option.bind_splits)

lemma add_correct:
  assumes rel: "queue_rel s tp_p ns"
    and live: "job_heap s p = Some j"
    and fresh: "p \<notin> set ns"
    and room: "int (length ns) < INT_MAX"
  shows "\<exists>s'. thpool_jobqueue_add s tp_p p = Some s' \<and> queue_rel s' tp_p (p # ns) \<and>
           pool_heap s' = pool_heap s \<and> payload s' = payload s"
proof -
  from queue_relD[OF rel] obtain pool qa q where
    g: "pool_heap s tp_p = Some pool" "jobqueue pool = Some qa" "queue_heap s qa = Some q"
       "get_jobqueue s tp_p = Some (qa, q)"
    and q: "jobsN q = int (length ns)" "head q = (case ns of [] \<Rightarrow> None | a # _ \<Rightarrow> Some a)"
       "tail q = (if ns = [] then None else Some (last ns))"
    and d: "distinct ns" "dll (job_heap s) None ns None"
    by blast
  show ?thesis
  proof (cases ns)
    case Nil
    with g q d live room show ?thesis
      by (auto simp: thpool_jobqueue_add_def queue_rel_def get_jobqueue_def payload_def fun_eq_iff)
  next
    case (Cons a as)
    with d obtain aj where aj: "job_heap s a = Some aj" "job_prev aj = None"
      "job_next aj = (case as of [] \<Rightarrow> None | b # _ \<Rightarrow> Some b)"
      "dll (job_heap s) (Some a) as None"
      by (auto split: option.splits)
    from Cons fresh d have ne: "p \<noteq> a" "a \<notin> set as" "p \<notin> set as" by auto
    from ne aj have "dll ((job_heap s)(p \<mapsto> x, a \<mapsto> y, p \<mapsto> z)) (Some a) as None" for x y z
      by (simp add: dll_upd_other)
    with Cons g q d live room ne aj show ?thesis
      by (auto simp: thpool_jobqueue_add_def queue_rel_def get_jobqueue_def payload_def fun_eq_iff)
  qed
qed

lemma add_overflow:
  "get_jobqueue s tp_p = Some (qa, q) \<Longrightarrow> INT_MAX \<le> jobsN q \<Longrightarrow>
   thpool_jobqueue_add s tp_p p = None"
  by (auto simp: thpool_jobqueue_add_def INT_MAX_def split: Option.bind_splits)

lemma add_live: "thpool_jobqueue_add s tp_p p = Some s' \<Longrightarrow> \<exists>j. job_heap s p = Some j"
  by (auto simp: thpool_jobqueue_add_def split: Option.bind_splits)

lemma removelast_empty:
  "queue_rel s tp_p [] \<Longrightarrow> thpool_jobqueue_removelast s tp_p = Some (- 1, s)"
  by (auto dest!: queue_relD simp: thpool_jobqueue_removelast_def)

lemma removelast_correct:
  assumes rel: "queue_rel s tp_p (xs @ [c])"
  shows "\<exists>s'. thpool_jobqueue_removelast s tp_p = Some (0, s') \<and> queue_rel s' tp_p xs \<and>
           pool_heap s' = pool_heap s \<and> payload s' = payload s"
proof -
  from queue_relD[OF rel] obtain pool qa q where
    g: "pool_heap s tp_p = Some pool" "jobqueue pool = Some qa" "queue_heap s qa = Some q"
       "get_jobqueue s tp_p = Some (qa, q)"
    and q: "jobsN q = int (length xs) + 1" "head q = Some (hd (xs @ [c]))" "tail q = Some c"
    and d: "distinct xs" "c \<notin> set xs" "dll (job_heap s) None (xs @ [c]) None"
    by (auto split: list.splits)
  from d obtain cj where cj: "job_heap s c = Some cj"
      "job_prev cj = (if xs = [] then None else Some (last xs))"
    and dx: "dll (job_heap s) None xs (Some c)"
    by (auto simp: dll_snoc split: option.splits)
  have lo: "\<not> int (length xs) + 1 \<le> INT_MIN" by (simp add: INT_MIN_def)
  show ?thesis
  proof (cases "xs = []")
    case True
    with g q d cj lo show ?thesis
      by (auto simp: thpool_jobqueue_removelast_def queue_rel_def get_jobqueue_def payload_def fun_eq_iff)
  next
    case False
    from dll_live[OF dx, of "last xs"] False obtain bj where bj: "job_heap s (last xs) = Some bj"
      by auto
    from False d have ne: "last xs \<noteq> c" by auto
    from False have hd: "hd (xs @ [c]) = hd xs" by simp
    have "dll ((job_heap s)(last xs \<mapsto> bj\<lparr>job_next := None\<rparr>)) None xs None"
      using dll_set_last_next[OF dx d(1) False bj] .
    with False g q d cj lo bj ne hd show ?thesis
      by (auto simp: thpool_jobqueue_removelast_def queue_rel_def get_jobqueue_def
               payload_def fun_eq_iff split: list.splits)
  qed
qed

lemma peek_correct:
  "queue_rel s tp_p ns \<Longrightarrow>
   thpool_jobqueue_peek s tp_p = Some (if ns = [] then None else Some (last ns))"
  by (auto dest!: queue_relD simp: thpool_jobqueue_peek_def)

lemma restrict_free: "(jh(c := None)) |` (- set xs) = jh |` (- set (xs @ [c]))"
  by (rule ext) (simp add: restrict_map_def)

lemma empty_loop_correct:
  "dll jh None xs nx \<Longrightarrow> distinct xs \<Longrightarrow> jobsN q = int (length xs) \<Longrightarrow>
   curjob = (if xs = [] then None else Some (last xs)) \<Longrightarrow>
   \<exists>q'. empty_loop jh q curjob = Some (jh |` (- set xs), q') \<and> jobsN q' = 0"
proof (induction xs arbitrary: jh q nx curjob rule: rev_induct)
  case Nil
  then show ?case by (simp add: empty_loop.simps)
next
  case (snoc c xs)
  from snoc.prems obtain cj where cj: "jh c = Some cj"
      "job_prev cj = (if xs = [] then None else Some (last xs))"
    and dx: "dll jh None xs (Some c)" and dist: "distinct xs" "c \<notin> set xs"
    by (auto simp: dll_snoc split: option.splits)
  from dx dist have dx': "dll (jh(c := None)) None xs (Some c)"
    by (simp add: dll_upd_other)
  from snoc.prems(3) have n': "jobsN (q\<lparr>tail := job_prev cj, jobsN := jobsN q - 1\<rparr>) = int (length xs)"
    by simp
  have "\<exists>q'. empty_loop (jh(c := None)) (q\<lparr>tail := job_prev cj, jobsN := jobsN q - 1\<rparr>)
      (job_prev cj) = Some ((jh(c := None)) |` (- set xs), q') \<and> jobsN q' = 0"
    using dx' dist(1) n' cj(2) by (rule snoc.IH)
  then obtain q' where "empty_loop (jh(c := None)) (q\<lparr>tail := job_prev cj, jobsN := jobsN q - 1\<rparr>)
      (job_prev cj) = Some (jh |` (- set (xs @ [c])), q')" "jobsN q' = 0"
    unfolding restrict_free by blast
  with snoc.prems(3,4) cj(1) show ?case
    by (subst empty_loop.simps) (simp add: INT_MIN_def)
qed

lemma empty_correct:
  assumes rel: "queue_rel s tp_p ns"
  shows "\<exists>s'. thpool_jobqueue_empty s tp_p = Some s' \<and> queue_rel s' tp_p [] \<and>
           job_heap s' = job_heap s |` (- set ns) \<and> pool_heap s' = pool_heap s"
proof -
  from queue_relD[OF rel] obtain pool qa q where
    g: "pool_heap s tp_p = Some pool" "jobqueue pool = Some qa" "queue_heap s qa = Some q"
       "get_jobqueue s tp_p = Some (qa, q)"
    and q: "jobsN q = int (length ns)" "tail q = (if ns = [] then None else Some (last ns))"
    and d: "distinct ns" "dll (job_heap s) None ns None"
    by blast
  from empty_loop_correct[OF d(2) d(1) q(1) q(2)] obtain q' where
    "empty_loop (job_heap s) q (tail q) = Some (job_heap s |` (- set ns), q')" "jobsN q' = 0"
    by blast
  with g show ?thesis
    by (auto simp: thpool_jobqueue_empty_def queue_rel_def get_jobqueue_def)
qed

lemma empty_explicit:
  assumes rel: "queue_rel s tp_p ns"
  shows "\<exists>qa. thpool_jobqueue_empty s tp_p =
           Some (s\<lparr>job_heap := job_heap s |` (- set ns),
                   queue_heap := (queue_heap s)(qa \<mapsto> \<lparr>head = None, tail = None, jobsN = 0\<rparr>)\<rparr>) \<and>
           get_jobqueue s tp_p = Some (qa, the (queue_heap s qa))"
proof -
  from queue_relD[OF rel] obtain pool qa q where
    g: "pool_heap s tp_p = Some pool" "jobqueue pool = Some qa" "queue_heap s qa = Some q"
       "get_jobqueue s tp_p = Some (qa, q)"
    and q: "jobsN q = int (length ns)" "tail q = (if ns = [] then None else Some (last ns))"
    and d: "distinct ns" "dll (job_heap s) None ns None"
    by blast
  from empty_loop_correct[OF d(2) d(1) q(1) q(2)] obtain q' where
    l: "empty_loop (job_heap s) q (tail q) = Some (job_heap s |` (- set ns), q')" "jobsN q' = 0"
    by blast
  then have eq: "q'\<lparr>tail := None, head := None\<rparr> = \<lparr>head = None, tail = None, jobsN = 0\<rparr>"
    by simp
  show ?thesis
    unfolding thpool_jobqueue_empty_def by (simp add: g l(1) eq)
qed

lemma rel_upd_other:
  assumes "queue_rel s tp_p ns" "p \<notin> set ns"
  shows "queue_rel (s\<lparr>job_heap := (job_heap s)(p := v)\<rparr>) tp_p ns"
proof -
  have "get_jobqueue (s\<lparr>job_heap := (job_heap s)(p := v)\<rparr>) tp_p = get_jobqueue s tp_p"
    by (simp add: get_jobqueue_def)
  with assms show ?thesis
    by (auto simp: queue_rel_def dll_upd_other split: option.splits)
qed

lemma rel_queue_nodes: "queue_rel s tp_p ns \<Longrightarrow> queue_nodes s tp_p = Some ns"
  by (auto dest!: queue_relD simp: queue_nodes_def dll_linked_nodes)

lemma rel_invariant: "queue_rel s tp_p ns \<Longrightarrow> queue_invariant s tp_p"
proof -
  assume "queue_rel s tp_p ns"
  from queue_relD[OF this] obtain qa q where
    g: "get_jobqueue s tp_p = Some (qa, q)"
    and q: "jobsN q = int (length ns)" "head q = (case ns of [] \<Rightarrow> None | a # _ \<Rightarrow> Some a)"
       "tail q = (if ns = [] then None else Some (last ns))"
    and d: "distinct ns" "dll (job_heap s) None ns None"
    by blast
  have one: "(head q \<noteq> None \<and> head q = tail q) \<longleftrightarrow> jobsN q = 1"
  proof (cases ns)
    case Nil
    with q show ?thesis by simp
  next
    case (Cons a as)
    with q d show ?thesis by (cases as) auto
  qed
  from q have zero: "(head q = None \<and> tail q = None) \<longleftrightarrow> jobsN q = 0"
    by (auto split: list.splits)
  from dll_linked_nodes[OF d(2)] q g one zero show ?thesis
    by (simp add: queue_invariant_def)
qed

lemma payload_live: "payload s' = payload s \<Longrightarrow> (job_heap s' p = None) = (job_heap s p = None)"
  by (metis payload_def map_option_is_None)

lemma count_ok_total:
  "int (n + length (enqueued ops)) < INT_MAX \<Longrightarrow> count_ok n ops"
proof (induction ops arbitrary: n)
  case Nil
  show ?case by simp
next
  case (Cons op ops)
  show ?case
  proof (cases op)
    case (Enqueue p)
    with Cons.prems have "int n < INT_MAX" "int (Suc n + length (enqueued ops)) < INT_MAX"
      by simp_all
    with Cons.IH[of "Suc n"] Enqueue show ?thesis by simp
  next
    case Dequeue
    with Cons.prems have "int (n - 1 + length (enqueued ops)) < INT_MAX" by simp
    with Cons.IH[of "n - 1"] Dequeue show ?thesis by simp
  qed
qed

lemma pairs_ok:
  "live p \<Longrightarrow> ops_ok live [] (concat (replicate k [Enqueue p, Dequeue])) \<and>
     count_ok 0 (concat (replicate k [Enqueue p, Dequeue]))"
  by (induction k) (simp_all add: INT_MAX_def)

lemma count_ok_needed:
  "queue_rel s tp_p q \<Longrightarrow> ops_ok (\<lambda>p. job_heap s p \<noteq> None) q ops \<Longrightarrow>
   \<not> count_ok (length q) ops \<Longrightarrow> run_ops s tp_p ops = None"
proof (induction ops arbitrary: s q)
  case Nil
  then show ?case by simp
next
  case (Cons op ops)
  show ?case
  proof (cases op)
    case (Enqueue p)
    with Cons.prems obtain j where j: "job_heap s p = Some j" and fresh: "p \<notin> set q"
      and ok: "ops_ok (\<lambda>p. job_heap s p \<noteq> None) (p # q) ops" by auto
    show ?thesis
    proof (cases "int (length q) < INT_MAX")
      case False
      from queue_relD[OF Cons.prems(1)] obtain qa qu where
        "get_jobqueue s tp_p = Some (qa, qu)" "jobsN qu = int (length q)" by blast
      with False have "thpool_jobqueue_add s tp_p p = None"
        by (intro add_overflow) auto
      with Enqueue show ?thesis by simp
    next
      case True
      from add_correct[OF Cons.prems(1) j fresh True] obtain s1 where
        s1: "thpool_jobqueue_add s tp_p p = Some s1" "queue_rel s1 tp_p (p # q)"
            "payload s1 = payload s" by blast
      from s1(3) have "(\<lambda>p. job_heap s1 p \<noteq> None) = (\<lambda>p. job_heap s p \<noteq> None)"
        using payload_live[OF s1(3)] by simp
      with ok have ok1: "ops_ok (\<lambda>p. job_heap s1 p \<noteq> None) (p # q) ops" by simp
      from Cons.prems(3) Enqueue True have "\<not> count_ok (length (p # q)) ops" by simp
      from Cons.IH[OF s1(2) ok1 this] s1(1) Enqueue show ?thesis by simp
    qed
  next
    case Dequeue
    show ?thesis
    proof (cases q rule: rev_cases)
      case Nil
      with Cons.prems have r: "thpool_jobqueue_removelast s tp_p = Some (- 1, s)"
        and p: "thpool_jobqueue_peek s tp_p = Some None"
        by (simp_all add: removelast_empty peek_correct)
      from Cons.prems Dequeue Nil have "ops_ok (\<lambda>p. job_heap s p \<noteq> None) q ops"
        "\<not> count_ok (length q) ops" by simp_all
      from Cons.IH[OF Cons.prems(1) this] r p Dequeue show ?thesis by simp
    next
      case (snoc xs c)
      with Cons.prems(1) have p: "thpool_jobqueue_peek s tp_p = Some (Some c)"
        by (simp add: peek_correct)
      from removelast_correct[of s tp_p xs c] Cons.prems(1) snoc obtain s1 where
        s1: "thpool_jobqueue_removelast s tp_p = Some (0, s1)" "queue_rel s1 tp_p xs"
          "payload s1 = payload s" by blast
      from s1(3) have "(\<lambda>p. job_heap s1 p \<noteq> None) = (\<lambda>p. job_heap s p \<noteq> None)"
        using payload_live[OF s1(3)] by simp
      with Cons.prems(2) Dequeue snoc have ok1: "ops_ok (\<lambda>p. job_heap s1 p \<noteq> None) xs ops"
        by simp
      from Cons.prems(3) Dequeue snoc have "\<not> count_ok (length xs) ops" by simp
      from Cons.IH[OF s1(2) ok1 this] p s1(1) Dequeue show ?thesis by simp
    qed
  qed
qed

lemma reachable_rel: "reachable tp_p s \<Longrightarrow> \<exists>ns. queue_rel s tp_p ns"
proof (induction rule: reachable.induct)
  case (r_init s qa q0 s')
  then show ?case using init_rel by blast
next
  case (r_add s ns p s')
  then obtain ms where rel: "queue_rel s tp_p ms" by blast
  with r_add have fresh: "p \<notin> set ms" by (simp add: rel_queue_nodes)
  from add_live[OF r_add(4)] obtain j where j: "job_heap s p = Some j" by blast
  have room: "int (length ms) < INT_MAX"
  proof (rule ccontr)
    assume "\<not> int (length ms) < INT_MAX"
    with queue_relD[OF rel] have "thpool_jobqueue_add s tp_p p = None"
      by (auto intro: add_overflow)
    with r_add(4) show False by simp
  qed
  from add_correct[OF rel j fresh room] r_add(4) show ?case by auto
next
  case (r_removelast s r s')
  then obtain ms where rel: "queue_rel s tp_p ms" by blast
  show ?case
  proof (cases ms rule: rev_cases)
    case Nil
    with rel r_removelast(2) show ?thesis by (auto simp: removelast_empty)
  next
    case (snoc xs c)
    with removelast_correct[of s tp_p xs c] rel r_removelast(2) show ?thesis by auto
  qed
next
  case (r_empty s s')
  then obtain ms where rel: "queue_rel s tp_p ms" by blast
  from empty_correct[OF rel] r_empty(2) show ?case by auto
next
  case (r_malloc s p j)
  then obtain ms where rel: "queue_rel s tp_p ms" by blast
  from queue_relD[OF rel] have "dll (job_heap s) None ms None" by blast
  with r_malloc(2) have "p \<notin> set ms" using dll_live by fastforce
  from rel_upd_other[OF rel this] show ?case by blast
next
  case (r_free s ns p)
  then obtain ms where rel: "queue_rel s tp_p ms" by blast
  with r_free have "p \<notin> set ms" by (simp add: rel_queue_nodes)
  from rel_upd_other[OF rel this] show ?case by blast
qed

lemma critical_empty: "queue_rel s tp_p [] \<Longrightarrow> worker_critical s tp_p = None"
  by (simp add: worker_critical_def peek_correct)

lemma critical_nonempty:
  assumes "queue_rel s tp_p (xs @ [c])"
  shows "\<exists>j s'. job_heap s c = Some j \<and>
           worker_critical s tp_p = Some (Some c, job_function j, job_arg j, s') \<and>
           queue_rel s' tp_p xs \<and> payload s' = payload s \<and> pool_heap s' = pool_heap s"
proof -
  from queue_relD[OF assms] have "dll (job_heap s) None (xs @ [c]) None" by blast
  from dll_live[OF this, of c] obtain j where j: "job_heap s c = Some j" by auto
  from removelast_correct[OF assms] obtain s' where
    "thpool_jobqueue_removelast s tp_p = Some (0, s')" "queue_rel s' tp_p xs"
    "pool_heap s' = pool_heap s" "payload s' = payload s" by blast
  with j peek_correct[OF assms] show ?thesis
    by (simp add: worker_critical_def)
qed

lemma add_frame:
  "thpool_jobqueue_add s tp_p p = Some s' \<Longrightarrow> exit_status s' = exit_status s"
  by (auto simp: thpool_jobqueue_add_def Let_def split: Option.bind_splits if_splits)

lemma rel_sem_upd:
  assumes "queue_rel s tp_p ns" "pool_heap s tp_p = Some pool"
  shows "queue_rel (s\<lparr>pool_heap := (pool_heap s)(tp_p \<mapsto> set_sem x v pool)\<rparr>) tp_p ns"
proof -
  have "jobqueue (set_sem x v pool) = jobqueue pool" by (cases x) simp_all
  with assms(2) have "get_jobqueue (s\<lparr>pool_heap := (pool_heap s)(tp_p \<mapsto> set_sem x v pool)\<rparr>) tp_p =
      get_jobqueue s tp_p"
    by (simp add: get_jobqueue_def)
  with assms(1) show ?thesis by (auto simp: queue_rel_def split: option.splits)
qed

section \<open>Pool construction\<close>

lemma init_success_unfold:
  "thpool_init s n0 (Some (tp_p, pool0)) (Some ta) (Some (qa, q0)) create =
     do {
       s9 \<leftarrow> spawn_loop tp_p create 0 (max n0 1)
               (initial_pool_state s (max n0 1) tp_p ta qa);
       Some (Some tp_p, s9)
     }"
proof -
  define n where "n = max n0 1"
  have n: "(if n0 = 0 \<or> n0 < 1 then 1 else n0) = n"
    by (simp add: n_def)
  show ?thesis
    unfolding thpool_init_def n n_def[symmetric]
    by (cases pool0, cases q0)
       (simp add: upd_pool_def sem_init_def thpool_jobqueue_init_def initial_pool_state_def Let_def)
qed

lemma nat_upt_step: "0 \<le> t \<Longrightarrow> t < n \<Longrightarrow> [nat t..<nat n] = nat t # [nat (t + 1)..<nat n]"
  by (simp add: upt_conv_Cons nat_add_distrib)

lemma spawn_loop_correct:
  "pool_heap s tp_p = Some pool \<Longrightarrow> threads pool = Some ta \<Longrightarrow> ids_heap s ta = Some ids \<Longrightarrow>
   nat n \<le> length ids \<Longrightarrow> 0 \<le> t \<Longrightarrow>
   \<exists>s'. spawn_loop tp_p create t n s = Some s' \<and> spawn_post s s' tp_p ta create [nat t..<nat n]"
proof (induction tp_p create t n s arbitrary: ids rule: spawn_loop.induct)
  case (1 tp_p create t n s)
  show ?case
  proof (cases "t < n")
    case False
    then have "[nat t..<nat n] = []" by simp
    with False show ?thesis
      by (subst spawn_loop.simps)
         (simp add: spawn_post_def spawned_def spawn_failures_def)
  next
    case True
    with "1.prems" have idx: "nat t < length ids" by linarith
    note step = nat_upt_step[OF "1.prems"(5) True]
    show ?thesis
    proof (cases "create (nat t)")
      case (Inl reason)
      define s1 where "s1 = log_err s (spawn_failed_line (create (nat t)))"
      have pc: "pthread_create s tp_p (nat t) (create (nat t)) = Some (False, s)"
        using "1.prems" idx Inl by (simp add: pthread_create_def)
      have unf: "spawn_loop tp_p create t n s = spawn_loop tp_p create (t + 1) n s1"
        using True pc by (subst spawn_loop.simps) (simp add: s1_def)
      have pre: "pool_heap s1 tp_p = Some pool" "ids_heap s1 ta = Some ids" "0 \<le> t + 1"
        using "1.prems" by (simp_all add: s1_def log_err_def)
      have "\<exists>s'. spawn_loop tp_p create (t + 1) n s1 = Some s' \<and>
              spawn_post s1 s' tp_p ta create [nat (t + 1)..<nat n]"
        using "1.IH"[OF True pc refl, of ids] pre "1.prems"(2,4) by (simp add: s1_def)
      then obtain s' where ih: "spawn_loop tp_p create (t + 1) n s1 = Some s'"
        "spawn_post s1 s' tp_p ta create [nat (t + 1)..<nat n]" by blast
      have "spawned create [nat t..<nat n] = spawned create [nat (t + 1)..<nat n]"
        "spawn_failures create [nat t..<nat n] =
           spawn_failed_line (create (nat t)) # spawn_failures create [nat (t + 1)..<nat n]"
        using Inl by (simp_all add: step spawned_def spawn_failures_def)
      with ih(2) have "spawn_post s s' tp_p ta create [nat t..<nat n]"
        by (simp add: spawn_post_def s1_def log_err_def)
      with ih(1) show ?thesis unfolding unf by simp
    next
      case (Inr tid)
      define s1 where "s1 = s\<lparr>ids_heap := (ids_heap s)(ta \<mapsto> ids[nat t := Some tid]),
                     workers := workers s @ [(tid, tp_p)]\<rparr>"
      have pc: "pthread_create s tp_p (nat t) (create (nat t)) = Some (True, s1)"
        using "1.prems" idx Inr by (simp add: pthread_create_def s1_def)
      have unf: "spawn_loop tp_p create t n s = spawn_loop tp_p create (t + 1) n s1"
        using True pc by (subst spawn_loop.simps) simp
      have pre: "pool_heap s1 tp_p = Some pool" "ids_heap s1 ta = Some (ids[nat t := Some tid])"
        "0 \<le> t + 1" "nat n \<le> length (ids[nat t := Some tid])"
        using "1.prems" by (simp_all add: s1_def)
      have "\<exists>s'. spawn_loop tp_p create (t + 1) n s1 = Some s' \<and>
              spawn_post s1 s' tp_p ta create [nat (t + 1)..<nat n]"
        using "1.IH"[OF True pc refl, of "ids[nat t := Some tid]"] pre "1.prems"(2) by simp
      then obtain s' where ih: "spawn_loop tp_p create (t + 1) n s1 = Some s'"
        "spawn_post s1 s' tp_p ta create [nat (t + 1)..<nat n]" by blast
      have "spawned create [nat t..<nat n] = tid # spawned create [nat (t + 1)..<nat n]"
        "spawn_failures create [nat t..<nat n] = spawn_failures create [nat (t + 1)..<nat n]"
        using Inr by (simp_all add: step spawned_def spawn_failures_def)
      with ih(2) "1.prems"(3) have "spawn_post s s' tp_p ta create [nat t..<nat n]"
        by (simp add: spawn_post_def s1_def)
      with ih(1) show ?thesis unfolding unf by simp
    qed
  qed
qed

lemma init_success:
  "\<exists>s'. thpool_init s n0 (Some (tp_p, pool0)) (Some ta) (Some (qa, q0)) create = Some (Some tp_p, s') \<and>
        spawn_post (initial_pool_state s (max n0 1) tp_p ta qa) s' tp_p ta create [0..<nat (max n0 1)]"
proof -
  define n where "n = max n0 1"
  define s8 where "s8 = initial_pool_state s n tp_p ta qa"
  have "pool_heap s8 tp_p = Some \<lparr>threads = Some ta, threadsN = n, jobqueue = Some qa,
           mutex = Some 1, nEmpty = Some (nat n), nStored = Some 0\<rparr>"
    "ids_heap s8 ta = Some (replicate (nat n) None)"
    by (simp_all add: s8_def initial_pool_state_def)
  from spawn_loop_correct[OF this(1) _ this(2), where n = n and t = 0 and create = create]
  obtain s' where "spawn_loop tp_p create 0 n s8 = Some s'"
    "spawn_post s8 s' tp_p ta create [0..<nat n]" by auto
  then show ?thesis
    unfolding init_success_unfold n_def[symmetric] s8_def[symmetric]
    by (simp add: s8_def n_def)
qed

lemma init_result_cases:
  assumes "thpool_init s n0 m_pool m_threads m_queue create = Some (Some tp_p, s')"
  shows "\<exists>pool0 ta qa q0. m_pool = Some (tp_p, pool0) \<and> m_threads = Some ta \<and> m_queue = Some (qa, q0)"
proof (cases m_pool)
  case None
  with assms show ?thesis by (simp add: thpool_init_def)
next
  case (Some a)
  obtain tp pool0 where a: "a = (tp, pool0)" by (cases a)
  show ?thesis
  proof (cases m_threads)
    case None
    with assms Some a show ?thesis
      by (simp add: thpool_init_def upd_pool_def free_pool_def log_err_def)
  next
    case mt: (Some ta)
    show ?thesis
    proof (cases m_queue)
      case None
      with assms Some a mt show ?thesis
        by (simp add: thpool_init_def upd_pool_def free_pool_def free_ids_def log_err_def
              thpool_jobqueue_init_def)
    next
      case mq: (Some b)
      obtain qa q0 where b: "b = (qa, q0)" by (cases b)
      from assms Some a mt mq b have "tp = tp_p"
        by (auto simp: init_success_unfold split: Option.bind_splits)
      with Some a mt mq b show ?thesis by simp
    qed
  qed
qed

lemma init_success_facts:
  assumes "thpool_init s n0 m_pool m_threads m_queue create = Some (Some tp_p, s')"
  shows "\<exists>ta qa. m_threads = Some ta \<and>
           spawn_post (initial_pool_state s (max n0 1) tp_p ta qa) s' tp_p ta create
             [0..<nat (max n0 1)]"
proof -
  from init_result_cases[OF assms] obtain pool0 ta qa q0 where
    m: "m_pool = Some (tp_p, pool0)" "m_threads = Some ta" "m_queue = Some (qa, q0)"
    by blast
  from init_success[of s n0 tp_p pool0 ta qa q0 create] assms m show ?thesis
    by auto
qed

lemma spawn_counts: "length (spawned create ts) + length (spawn_failures create ts) = length ts"
  by (induction ts) (auto simp: spawned_def spawn_failures_def split: sum.splits)

lemma spawn_all:
  "(\<forall>t \<in> set ts. \<exists>tid. create t = Inr tid) \<Longrightarrow> length (spawned create ts) = length ts"
  by (induction ts) (auto simp: spawned_def)

section \<open>Runs of the threads\<close>

lemma worker_run_after_clear:
  assumes run: "worker_run tp_p (s, w) tr (s', w')"
    and pc: "w_pc w = W_if" and clear: "thpool_keepalive s = 0"
  shows "thpool_keepalive s' = 0 \<and>
         ((tr = [] \<and> w' = w) \<or>
          (tr = [W_if] \<and> w' = w\<lparr>w_pc := W_while\<rparr>) \<or>
          (tr = [W_if, W_while] \<and> w' = w\<lparr>w_pc := W_return\<rparr>))"
  using run
proof (induction tr "(s', w')" arbitrary: s' w' rule: worker_run.induct)
  case w_start
  with clear show ?case by simp
next
  case (w_step tr s1 w1 wait_fails s2 w2)
  from w_step(2) have inv: "thpool_keepalive s1 = 0"
    "(tr = [] \<and> w1 = w) \<or> (tr = [W_if] \<and> w1 = w\<lparr>w_pc := W_while\<rparr>) \<or>
     (tr = [W_if, W_while] \<and> w1 = w\<lparr>w_pc := W_return\<rparr>)"
    by simp_all
  from inv(2) show ?case
  proof (elim disjE conjE)
    assume "tr = []" "w1 = w"
    with w_step(3) pc inv(1) show ?thesis
      by (auto simp: thpool_thread_do_def split: if_splits)
  next
    assume "tr = [W_if]" "w1 = w\<lparr>w_pc := W_while\<rparr>"
    with w_step(3) inv(1) show ?thesis
      by (auto simp: thpool_thread_do_def split: if_splits)
  next
    assume "tr = [W_if, W_while]" "w1 = w\<lparr>w_pc := W_return\<rparr>"
    with w_step(3) show ?thesis
      by (auto simp: thpool_thread_do_def split: if_splits)
  qed
next
  case (w_env tr s1 w1 s2)
  then show ?case by simp
qed

lemma submit_return_value:
  assumes run: "submit_run tp_p function_p arg_p (s, a) (s', a')"
    and start: "a_pc a = A_malloc"
  shows "a_pc a' = A_return v \<Longrightarrow> v = 0"
  using run
proof (induction "(s', a')" arbitrary: s' a' v rule: submit_run.induct)
  case a_start
  with start show ?case by simp
next
  case (a_step s1 a1 m wait_fails s2 a2)
  from a_step(3,4) show ?case
    by (auto simp: thpool_add_work_def
          split: if_splits apc.splits option.splits wait_result.splits prod.splits)
next
  case (a_env s1 a1 s2)
  then show ?case by simp
qed

lemma submit_run_exited:
  assumes run: "submit_run tp_p function_p arg_p (s, a) c'" and dead: "exit_status s \<noteq> None"
  shows "c' = (s, a)"
  using run
proof (induction c' rule: submit_run.induct)
  case a_start
  show ?case by simp
next
  case (a_step s1 a1 m wait_fails s2 a2)
  with dead show ?case by (simp add: thpool_add_work_def)
next
  case (a_env s1 a1 s2)
  with dead show ?case by simp
qed

lemma submit_completes:
  assumes rel: "queue_rel s tp_p ns" and alive: "exit_status s = None"
    and fresh: "job_heap s p = None" and room: "int (length ns) < INT_MAX"
    and pool: "pool_heap s tp_p = Some pool"
    and sems: "nEmpty pool = Some (Suc e)" "mutex pool = Some (Suc m)" "nStored pool = Some k"
    and start: "a_pc a = A_malloc"
  shows "\<exists>s' a'. submit_run tp_p function_p arg_p (s, a) (s', a') \<and> a_pc a' = A_return 0 \<and>
           queue_rel s' tp_p (p # ns) \<and> payload s' p = Some (function_p, arg_p)"
proof -
  let ?step = "thpool_add_work tp_p function_p arg_p"
  let ?run = "submit_run tp_p function_p arg_p (s, a)"
  from queue_relD[OF rel] have "dll (job_heap s) None ns None" by blast
  with fresh have notin: "p \<notin> set ns" using dll_live by fastforce
  define j0 where "j0 = \<lparr>job_function = 0, job_arg = 0, job_next = Some p, job_prev = Some p\<rparr>"
  define j1 where "j1 = j0\<lparr>job_function := function_p, job_arg := arg_p\<rparr>"
  define s1 where "s1 = s\<lparr>job_heap := (job_heap s)(p \<mapsto> j0)\<rparr>"
  define s2 where "s2 = s\<lparr>job_heap := (job_heap s)(p \<mapsto> j1)\<rparr>"
  define pool3 where "pool3 = set_sem NEMPTY (Some e) pool"
  define s3 where "s3 = s2\<lparr>pool_heap := (pool_heap s2)(tp_p \<mapsto> pool3)\<rparr>"
  define pool4 where "pool4 = set_sem MUTEX (Some m) pool3"
  define s4 where "s4 = s3\<lparr>pool_heap := (pool_heap s3)(tp_p \<mapsto> pool4)\<rparr>"
  define a1 where "a1 = a\<lparr>a_pc := A_set, newJob := Some p\<rparr>"
  have r0: "?run (s, a)" by (rule submit_run.a_start)
  have "?step (Some (p, j0)) False s a = Next s1 a1"
    using alive start by (simp add: thpool_add_work_def s1_def a1_def)
  from submit_run.a_step[OF r0 this] have r1: "?run (s1, a1)" .
  have "?step None False s1 a1 = Next s2 (a1\<lparr>a_pc := A_wait_empty\<rparr>)"
    using alive by (simp add: thpool_add_work_def s1_def s2_def a1_def j1_def)
  from submit_run.a_step[OF r1 this] have r2: "?run (s2, a1\<lparr>a_pc := A_wait_empty\<rparr>)" .
  have "?step None False s2 (a1\<lparr>a_pc := A_wait_empty\<rparr>) = Next s3 (a1\<lparr>a_pc := A_wait_mutex\<rparr>)"
    using alive pool sems
    by (simp add: thpool_add_work_def sem_wait_def s2_def s3_def a1_def pool3_def)
  from submit_run.a_step[OF r2 this] have r3: "?run (s3, a1\<lparr>a_pc := A_wait_mutex\<rparr>)" .
  have "?step None False s3 (a1\<lparr>a_pc := A_wait_mutex\<rparr>) = Next s4 (a1\<lparr>a_pc := A_add\<rparr>)"
    using alive pool sems
    by (simp add: thpool_add_work_def sem_wait_def s2_def s3_def s4_def a1_def pool3_def pool4_def)
  from submit_run.a_step[OF r3 this] have r4: "?run (s4, a1\<lparr>a_pc := A_add\<rparr>)" .
  have rel2: "queue_rel s2 tp_p ns"
    unfolding s2_def by (rule rel_upd_other[OF rel notin])
  have "queue_rel s3 tp_p ns"
    unfolding s3_def pool3_def by (rule rel_sem_upd[OF rel2]) (simp add: s2_def pool)
  then have rel4: "queue_rel s4 tp_p ns"
    unfolding s4_def pool4_def by (rule rel_sem_upd) (simp add: s3_def)
  have live4: "job_heap s4 p = Some j1" by (simp add: s4_def s3_def s2_def)
  from add_correct[OF rel4 live4 notin room] obtain s5 where
    s5: "thpool_jobqueue_add s4 tp_p p = Some s5" "queue_rel s5 tp_p (p # ns)"
        "pool_heap s5 = pool_heap s4" "payload s5 = payload s4" by blast
  from add_frame[OF s5(1)] alive have alive5: "exit_status s5 = None"
    by (simp add: s4_def s3_def s2_def)
  have "?step None False s4 (a1\<lparr>a_pc := A_add\<rparr>) = Next s5 (a1\<lparr>a_pc := A_post_mutex\<rparr>)"
    using alive s5(1) by (simp add: thpool_add_work_def s2_def s3_def s4_def a1_def)
  from submit_run.a_step[OF r4 this] have r5: "?run (s5, a1\<lparr>a_pc := A_post_mutex\<rparr>)" .
  have pool5: "pool_heap s5 tp_p = Some pool4" by (simp add: s5(3) s4_def)
  have mutex4: "get_sem MUTEX pool4 = Some m" by (simp add: pool4_def)
  define s6 where "s6 = s5\<lparr>pool_heap := (pool_heap s5)(tp_p \<mapsto> set_sem MUTEX (Some (Suc m)) pool4)\<rparr>"
  have "?step None False s5 (a1\<lparr>a_pc := A_post_mutex\<rparr>) = Next s6 (a1\<lparr>a_pc := A_post_stored\<rparr>)"
    using alive5 pool5 mutex4 by (simp add: thpool_add_work_def sem_post_def s6_def a1_def)
  from submit_run.a_step[OF r5 this] have r6: "?run (s6, a1\<lparr>a_pc := A_post_stored\<rparr>)" .
  define pool6 where "pool6 = set_sem MUTEX (Some (Suc m)) pool4"
  have pool6: "pool_heap s6 tp_p = Some pool6" by (simp add: s6_def pool6_def)
  have stored6: "get_sem NSTORED pool6 = Some k"
    using sems by (simp add: pool6_def pool4_def pool3_def)
  define s7 where "s7 = s6\<lparr>pool_heap := (pool_heap s6)(tp_p \<mapsto> set_sem NSTORED (Some (Suc k)) pool6)\<rparr>"
  have alive6: "exit_status s6 = None" using alive5 by (simp add: s6_def)
  have "?step None False s6 (a1\<lparr>a_pc := A_post_stored\<rparr>) = Next s7 (a1\<lparr>a_pc := A_return 0\<rparr>)"
    using alive6 pool6 stored6 by (simp add: thpool_add_work_def sem_post_def s7_def a1_def)
  from submit_run.a_step[OF r6 this] have r7: "?run (s7, a1\<lparr>a_pc := A_return 0\<rparr>)" .
  have "queue_rel s6 tp_p (p # ns)"
    unfolding s6_def by (rule rel_sem_upd[OF s5(2) pool5])
  then have rel7: "queue_rel s7 tp_p (p # ns)"
    unfolding s7_def by (rule rel_sem_upd[OF _ pool6])
  have "payload s7 p = payload s4 p"
    using s5(4) by (simp add: payload_def s7_def s6_def fun_eq_iff)
  also have "\<dots> = Some (function_p, arg_p)"
    by (simp add: payload_def live4 j1_def j0_def)
  finally have "payload s7 p = Some (function_p, arg_p)" .
  with r7 rel7 show ?thesis by (intro exI[of _ s7] exI[of _ "a1\<lparr>a_pc := A_return 0\<rparr>"]) simp
qed

section \<open>The concrete states\<close>

text \<open>The model runs: two jobs go through the queue in order, a request for -3 threads
  builds a pool of one, and the critical section of a worker takes the oldest job.\<close>

lemma ready_rel: "queue_rel ready_state 0 []"
  by (simp add: queue_rel_def get_jobqueue_def ready_state_def)

lemma queued_rel: "queue_rel queued_state 0 [2, 1]"
  by (simp add: queue_rel_def get_jobqueue_def queued_state_def)

lemma run_ops_demo:
  "map_option fst (run_ops ready_state 0 [Enqueue 1, Enqueue 2, Dequeue, Dequeue, Dequeue]) =
     Some [Some 1, Some 2]"
  by (simp add: ready_state_def thpool_jobqueue_add_def thpool_jobqueue_removelast_def
        thpool_jobqueue_peek_def get_jobqueue_def INT_MAX_def INT_MIN_def Let_def)

lemma thpool_init_demo:
  "map_option (\<lambda>(r, s'). (r, pool_heap s' 0, ids_heap s' 0, workers s', err_out s'))
     (thpool_init boot_state (- 3) (Some (0, junk_pool)) (Some 0) (Some (0, junk_queue))
        (\<lambda>t. Inr (5 + t))) =
   Some (Some 0,
         Some \<lparr>threads = Some 0, threadsN = 1, jobqueue = Some 0,
               mutex = Some 1, nEmpty = Some 1, nStored = Some 0\<rparr>,
         Some [Some 5], [(5, 0)], [])"
  by (simp add: thpool_init_def upd_pool_def sem_init_def thpool_jobqueue_init_def Let_def
        boot_state_def junk_pool_def junk_queue_def spawn_loop.simps pthread_create_def)

lemma worker_critical_demo:
  "map_option (\<lambda>(jp, f, a, s'). (jp, f, a, queue_heap s' 0)) (worker_critical queued_state 0) =
   Some (Some 1, 7, 8, Some \<lparr>head = Some 2, tail = Some 2, jobsN = 1\<rparr>)"
  by (simp add: worker_critical_def thpool_jobqueue_peek_def thpool_jobqueue_removelast_def
        get_jobqueue_def queued_state_def INT_MIN_def Let_def)

section \<open>The claims\<close>

text \<open>C1.  The job queue is strict FIFO.  From a well-formed queue holding the jobs \<open>q\<close>
  (newest first), every sequence of enqueues and dequeues in which each enqueue is
  given a live job that is not in the queue, and finds the queue below \<^verbatim>\<open>INT_MAX\<close> jobs,
  runs without fault, and the jobs its successful dequeues return are, in this order,
  the first \<open>n\<close> of the jobs that were waiting (oldest first) followed by the jobs
  enqueued: the k-th successful dequeue returns the k-th job submitted.  The jobs not
  yet served are what the queue holds at the end, and no job's function or argument
  has changed.  The bound is on the size of the queue at each enqueue, so the sequence
  may be of any length (\<open>pairs_ok\<close>), and it is the weakest one: where it fails,
  \<^verbatim>\<open>jobsN++\<close> overflows (\<open>count_ok_needed\<close>).\<close>

theorem jobqueue_fifo:
  "queue_rel s tp_p q \<Longrightarrow> ops_ok (\<lambda>p. job_heap s p \<noteq> None) q ops \<Longrightarrow>
   count_ok (length q) ops \<Longrightarrow>
   \<exists>n s'. run_ops s tp_p ops = Some (map Some (take n (rev q @ enqueued ops)), s') \<and>
     n \<le> length q + length (enqueued ops) \<and>
     queue_rel s' tp_p (rev (drop n (rev q @ enqueued ops))) \<and>
     payload s' = payload s"
proof (induction ops arbitrary: s q)
  case Nil
  then have "run_ops s tp_p [] = Some (map Some (take 0 (rev q @ enqueued [])), s) \<and>
     0 \<le> length q + length (enqueued []) \<and>
     queue_rel s tp_p (rev (drop 0 (rev q @ enqueued []))) \<and> payload s = payload s"
    by simp
  then show ?case by blast
next
  case (Cons op ops)
  show ?case
  proof (cases op)
    case (Enqueue p)
    with Cons.prems obtain j where j: "job_heap s p = Some j" and fresh: "p \<notin> set q"
      and ok: "ops_ok (\<lambda>p. job_heap s p \<noteq> None) (p # q) ops"
      and room: "int (length q) < INT_MAX" by auto
    from add_correct[OF Cons.prems(1) j fresh room] obtain s1 where
      s1: "thpool_jobqueue_add s tp_p p = Some s1" "queue_rel s1 tp_p (p # q)"
          "payload s1 = payload s" by blast
    from s1(3) have "(\<lambda>p. job_heap s1 p \<noteq> None) = (\<lambda>p. job_heap s p \<noteq> None)"
      using payload_live[OF s1(3)] by simp
    with ok have ok1: "ops_ok (\<lambda>p. job_heap s1 p \<noteq> None) (p # q) ops" by simp
    from Cons.prems(3) Enqueue have "count_ok (length (p # q)) ops"
      by simp
    from Cons.IH[OF s1(2) ok1 this] obtain n s' where
      ih: "run_ops s1 tp_p ops = Some (map Some (take n (rev (p # q) @ enqueued ops)), s')"
          "n \<le> length (p # q) + length (enqueued ops)"
          "queue_rel s' tp_p (rev (drop n (rev (p # q) @ enqueued ops)))"
          "payload s' = payload s1" by blast
    have all: "rev (p # q) @ enqueued ops = rev q @ enqueued (op # ops)"
      using Enqueue by simp
    have "run_ops s tp_p (op # ops) = Some (map Some (take n (rev q @ enqueued (op # ops))), s')"
      using Enqueue s1(1) ih(1) unfolding all by simp
    moreover have "n \<le> length q + length (enqueued (op # ops))"
      using ih(2) Enqueue by simp
    moreover have "queue_rel s' tp_p (rev (drop n (rev q @ enqueued (op # ops))))"
      using ih(3) unfolding all .
    moreover have "payload s' = payload s" using ih(4) s1(3) by simp
    ultimately show ?thesis by blast
  next
    case Dequeue
    show ?thesis
    proof (cases q rule: rev_cases)
      case Nil
      with Cons.prems have r: "thpool_jobqueue_removelast s tp_p = Some (- 1, s)"
        and p: "thpool_jobqueue_peek s tp_p = Some None"
        by (simp_all add: removelast_empty peek_correct)
      from Cons.prems Dequeue Nil have "ops_ok (\<lambda>p. job_heap s p \<noteq> None) q ops"
        "count_ok (length q) ops" by simp_all
      from Cons.IH[OF Cons.prems(1) this] obtain n s' where
        ih: "run_ops s tp_p ops = Some (map Some (take n (rev q @ enqueued ops)), s')"
          "n \<le> length q + length (enqueued ops)"
          "queue_rel s' tp_p (rev (drop n (rev q @ enqueued ops)))"
          "payload s' = payload s" by blast
      have all: "rev q @ enqueued ops = rev q @ enqueued (op # ops)"
        using Dequeue by simp
      have "run_ops s tp_p (op # ops) = Some (map Some (take n (rev q @ enqueued (op # ops))), s')"
        using Dequeue r p ih(1) unfolding all by simp
      moreover have "n \<le> length q + length (enqueued (op # ops))"
        using ih(2) Dequeue by simp
      moreover have "queue_rel s' tp_p (rev (drop n (rev q @ enqueued (op # ops))))"
        using ih(3) unfolding all .
      ultimately show ?thesis using ih(4) by blast
    next
      case (snoc xs c)
      with Cons.prems(1) have p: "thpool_jobqueue_peek s tp_p = Some (Some c)"
        by (simp add: peek_correct)
      from removelast_correct[of s tp_p xs c] Cons.prems(1) snoc obtain s1 where
        s1: "thpool_jobqueue_removelast s tp_p = Some (0, s1)" "queue_rel s1 tp_p xs"
          "payload s1 = payload s" by blast
      from s1(3) have "(\<lambda>p. job_heap s1 p \<noteq> None) = (\<lambda>p. job_heap s p \<noteq> None)"
        using payload_live[OF s1(3)] by simp
      with Cons.prems(2) Dequeue snoc have ok1: "ops_ok (\<lambda>p. job_heap s1 p \<noteq> None) xs ops"
        by simp
      from Cons.prems(3) Dequeue snoc have "count_ok (length xs) ops"
        by simp
      from Cons.IH[OF s1(2) ok1 this] obtain n s' where
        ih: "run_ops s1 tp_p ops = Some (map Some (take n (rev xs @ enqueued ops)), s')"
            "n \<le> length xs + length (enqueued ops)"
            "queue_rel s' tp_p (rev (drop n (rev xs @ enqueued ops)))"
            "payload s' = payload s1" by blast
      have all: "rev q @ enqueued (op # ops) = c # (rev xs @ enqueued ops)"
        using Dequeue snoc by simp
      have "run_ops s tp_p (op # ops) =
          Some (map Some (take (Suc n) (rev q @ enqueued (op # ops))), s')"
        using Dequeue p s1(1) ih(1) unfolding all by simp
      moreover have "Suc n \<le> length q + length (enqueued (op # ops))"
        using ih(2) Dequeue snoc by simp
      moreover have "queue_rel s' tp_p (rev (drop (Suc n) (rev q @ enqueued (op # ops))))"
        using ih(3) unfolding all by simp
      moreover have "payload s' = payload s" using ih(4) s1(3) by simp
      ultimately show ?thesis by blast
    qed
  qed
qed

theorem jobqueue_fifo_witness:
  "queue_rel ready_state 0 [] \<and>
   ops_ok (\<lambda>p. job_heap ready_state p \<noteq> None) [] [Enqueue 1, Enqueue 2, Dequeue, Dequeue, Dequeue] \<and>
   count_ok 0 [Enqueue 1, Enqueue 2, Dequeue, Dequeue, Dequeue] \<and>
   (\<exists>n s'. run_ops ready_state 0 [Enqueue 1, Enqueue 2, Dequeue, Dequeue, Dequeue] =
              Some (map Some (take n [1, 2]), s') \<and> n \<le> 2 \<and>
            queue_rel s' 0 (rev (drop n [1, 2])) \<and> payload s' = payload ready_state)"
proof -
  have ok: "ops_ok (\<lambda>p. job_heap ready_state p \<noteq> None) []
              [Enqueue 1, Enqueue 2, Dequeue, Dequeue, Dequeue]"
    by (simp add: ready_state_def)
  have room0: "count_ok 0 [Enqueue 1, Enqueue 2, Dequeue, Dequeue, Dequeue]"
    by (simp add: INT_MAX_def)
  then have room: "count_ok (length ([]::addr list))
                     [Enqueue 1, Enqueue 2, Dequeue, Dequeue, Dequeue]"
    by simp
  have e: "rev [] @ enqueued [Enqueue 1, Enqueue 2, Dequeue, Dequeue, Dequeue] = [1, 2]"
    "length ([]::addr list) + length (enqueued [Enqueue 1, Enqueue 2, Dequeue, Dequeue, Dequeue]) = 2"
    by simp_all
  from jobqueue_fifo[OF ready_rel ok room, unfolded e] ready_rel ok room0 show ?thesis by blast
qed

text \<open>C2.  Every state the queue reaches from \<^verbatim>\<open>thpool_jobqueue_init\<close> through
  \<^verbatim>\<open>thpool_jobqueue_add\<close>, \<^verbatim>\<open>thpool_jobqueue_removelast\<close> and \<^verbatim>\<open>thpool_jobqueue_empty\<close>
  satisfies the queue invariant: \<^verbatim>\<open>jobsN\<close> is at least 0 and is the number of jobs linked
  from the head, head and tail are both null iff \<^verbatim>\<open>jobsN\<close> is 0, and they point to the
  same job iff \<^verbatim>\<open>jobsN\<close> is 1.\<close>

theorem queue_invariant_reachable: "reachable tp_p s \<Longrightarrow> queue_invariant s tp_p"
  using reachable_rel rel_invariant by blast

theorem queue_invariant_reachable_witness:
  "reachable 0 ready_state \<and> queue_invariant ready_state 0 \<and>
   (\<exists>s'. thpool_jobqueue_add ready_state 0 1 = Some s' \<and> reachable 0 s' \<and> queue_invariant s' 0)"
proof -
  have "thpool_jobqueue_init
          (ready_state\<lparr>pool_heap := [0 \<mapsto> \<lparr>threads = Some 0, threadsN = 2, jobqueue = Some 98,
                          mutex = Some 1, nEmpty = Some 2, nStored = Some 0\<rparr>],
                        queue_heap := Map.empty\<rparr>) 0 (Some (0, junk_queue)) = Some (0, ready_state)"
    by (simp add: thpool_jobqueue_init_def ready_state_def junk_queue_def)
  then have r0: "reachable 0 ready_state" by (rule reachable.r_init)
  have "job_heap ready_state 1 =
      Some \<lparr>job_function = 7, job_arg = 8, job_next = None, job_prev = None\<rparr>"
    by (simp add: ready_state_def)
  from add_correct[OF ready_rel this] obtain s' where
    s': "thpool_jobqueue_add ready_state 0 1 = Some s'" by (auto simp: INT_MAX_def)
  have r1: "reachable 0 s'"
    by (rule reachable.r_add[OF r0 rel_queue_nodes[OF ready_rel] _ s']) simp
  from queue_invariant_reachable[OF r0] queue_invariant_reachable[OF r1] r0 r1 s'
  show ?thesis by blast
qed

text \<open>C3.  On every well-formed queue state \<^verbatim>\<open>thpool_jobqueue_empty\<close> runs without fault,
  frees exactly the queued jobs (each of them was live, so none is freed twice),
  executes nothing, and leaves the queue with head and tail null and \<^verbatim>\<open>jobsN\<close> 0.  On an
  empty queue it frees nothing, and draining the drained queue again changes
  nothing.\<close>

theorem drain_empties_queue:
  assumes "queue_rel s tp_p ns"
  shows "\<exists>s' qa. thpool_jobqueue_empty s tp_p = Some s' \<and>
           get_jobqueue s' tp_p = Some (qa, \<lparr>head = None, tail = None, jobsN = 0\<rparr>) \<and>
           set ns \<subseteq> dom (job_heap s) \<and>
           job_heap s' = job_heap s |` (- set ns) \<and>
           executed s' = executed s \<and>
           (ns = [] \<longrightarrow> job_heap s' = job_heap s) \<and>
           thpool_jobqueue_empty s' tp_p = Some s'"
proof -
  from empty_explicit[OF assms] obtain qa where
    e: "thpool_jobqueue_empty s tp_p =
           Some (s\<lparr>job_heap := job_heap s |` (- set ns),
                   queue_heap := (queue_heap s)(qa \<mapsto> \<lparr>head = None, tail = None, jobsN = 0\<rparr>)\<rparr>)"
    and g: "get_jobqueue s tp_p = Some (qa, the (queue_heap s qa))"
    by blast
  define s' where "s' = s\<lparr>job_heap := job_heap s |` (- set ns),
                   queue_heap := (queue_heap s)(qa \<mapsto> \<lparr>head = None, tail = None, jobsN = 0\<rparr>)\<rparr>"
  from queue_relD[OF assms] have "dll (job_heap s) None ns None" by blast
  then have live: "set ns \<subseteq> dom (job_heap s)"
    using dll_live by fastforce
  from g have g': "get_jobqueue s' tp_p = Some (qa, \<lparr>head = None, tail = None, jobsN = 0\<rparr>)"
    by (auto simp: s'_def get_jobqueue_def split: Option.bind_splits)
  then have rel': "queue_rel s' tp_p []"
    by (simp add: queue_rel_def)
  from empty_explicit[OF rel'] g' have
    "thpool_jobqueue_empty s' tp_p =
       Some (s'\<lparr>job_heap := job_heap s' |` (- set []),
                queue_heap := (queue_heap s')(qa \<mapsto> \<lparr>head = None, tail = None, jobsN = 0\<rparr>)\<rparr>)"
    by auto
  moreover have "job_heap s' |` (- set []) = job_heap s'" by (simp add: restrict_map_def)
  moreover have "(queue_heap s')(qa \<mapsto> \<lparr>head = None, tail = None, jobsN = 0\<rparr>) = queue_heap s'"
    by (simp add: s'_def)
  ultimately have idem: "thpool_jobqueue_empty s' tp_p = Some s'" by simp
  have "ns = [] \<longrightarrow> job_heap s' = job_heap s"
    by (simp add: s'_def restrict_map_def)
  moreover have "job_heap s' = job_heap s |` (- set ns)" "executed s' = executed s"
    by (simp_all add: s'_def)
  ultimately show ?thesis using e g' live idem unfolding s'_def[symmetric] by blast
qed

theorem drain_empties_queue_witness:
  "queue_rel queued_state 0 [2, 1] \<and>
   (\<exists>s' qa. thpool_jobqueue_empty queued_state 0 = Some s' \<and>
      get_jobqueue s' 0 = Some (qa, \<lparr>head = None, tail = None, jobsN = 0\<rparr>) \<and>
      set [2, 1] \<subseteq> dom (job_heap queued_state) \<and>
      job_heap s' = job_heap queued_state |` (- set [2, 1]) \<and>
      executed s' = executed queued_state \<and>
      thpool_jobqueue_empty s' 0 = Some s')"
  using drain_empties_queue[OF queued_rel] queued_rel by blast

text \<open>C4.  On a well-formed queue \<^verbatim>\<open>thpool_jobqueue_removelast\<close> returns -1 exactly when
  \<^verbatim>\<open>jobsN\<close> is 0, and then changes nothing.  Otherwise it returns 0, takes the oldest job
  (the tail) out of the queue without freeing it, lowers \<^verbatim>\<open>jobsN\<close> by one and relinks:
  both end references become null when the size was 1, and otherwise the head stays
  and the tail becomes the job before the old tail.\<close>

theorem removelast_result:
  assumes rel: "queue_rel s tp_p ns" and g: "get_jobqueue s tp_p = Some (qa, q)"
  shows "\<exists>r s'. thpool_jobqueue_removelast s tp_p = Some (r, s') \<and>
           (r = - 1 \<longleftrightarrow> jobsN q = 0) \<and>
           (jobsN q = 0 \<longrightarrow> s' = s) \<and>
           (jobsN q \<noteq> 0 \<longrightarrow>
              r = 0 \<and> tail q = Some (last ns) \<and>
              get_jobqueue s' tp_p =
                Some (qa, \<lparr>head = (if jobsN q = 1 then None else head q),
                           tail = (if jobsN q = 1 then None else Some (last (butlast ns))),
                           jobsN = jobsN q - 1\<rparr>) \<and>
              queue_rel s' tp_p (butlast ns) \<and> payload s' = payload s)"
proof (cases ns rule: rev_cases)
  case Nil
  with rel g queue_relD[OF rel] show ?thesis by (auto simp: removelast_empty)
next
  case (snoc xs c)
  from queue_relD[OF rel] g snoc have q: "jobsN q = int (length xs) + 1" "tail q = Some c"
    "head q = Some (hd (xs @ [c]))" "pool_heap s tp_p \<noteq> None"
    by (auto split: list.splits)
  from removelast_correct[of s tp_p xs c] rel snoc obtain s' where
    s': "thpool_jobqueue_removelast s tp_p = Some (0, s')" "queue_rel s' tp_p xs"
        "pool_heap s' = pool_heap s" "payload s' = payload s" by blast
  from queue_relD[OF s'(2)] obtain qa' q' where
    g': "get_jobqueue s' tp_p = Some (qa', q')"
    and q': "jobsN q' = int (length xs)" "head q' = (case xs of [] \<Rightarrow> None | a # _ \<Rightarrow> Some a)"
       "tail q' = (if xs = [] then None else Some (last xs))"
    by blast
  from g g' s'(3) have "qa' = qa"
    by (auto simp: get_jobqueue_def split: Option.bind_splits)
  moreover have "q' = \<lparr>head = (if jobsN q = 1 then None else head q),
                           tail = (if jobsN q = 1 then None else Some (last (butlast ns))),
                           jobsN = jobsN q - 1\<rparr>"
    using q q' snoc by (cases q'; cases xs) auto
  ultimately show ?thesis using s' g' q snoc by auto
qed

theorem removelast_result_witness:
  "queue_rel queued_state 0 [2, 1] \<and>
   get_jobqueue queued_state 0 = Some (0, \<lparr>head = Some 2, tail = Some 1, jobsN = 2\<rparr>) \<and>
   (\<exists>s'. thpool_jobqueue_removelast queued_state 0 = Some (0, s') \<and>
          get_jobqueue s' 0 = Some (0, \<lparr>head = Some 2, tail = Some 2, jobsN = 1\<rparr>) \<and>
          queue_rel s' 0 [2] \<and> payload s' = payload queued_state)"
proof -
  have g: "get_jobqueue queued_state 0 = Some (0, \<lparr>head = Some 2, tail = Some 1, jobsN = 2\<rparr>)"
    by (simp add: get_jobqueue_def queued_state_def)
  from removelast_result[OF queued_rel g] queued_rel g show ?thesis by auto
qed

text \<open>C5.  A \<^verbatim>\<open>thpool_init\<close> that returns a pool has clamped the requested thread count to
  a minimum of 1: the stored \<^verbatim>\<open>threadsN\<close>, the length of the array of thread ids, the
  initial value of \<^verbatim>\<open>nEmpty\<close> and the number of \<^verbatim>\<open>pthread_create\<close> calls (each call either
  starts a worker or is reported on \<^verbatim>\<open>stderr\<close>) all equal \<open>max threadsN 1\<close>.  The workers
  started are those whose \<^verbatim>\<open>pthread_create\<close> succeeded, so their number equals
  \<open>max threadsN 1\<close> when no call fails.\<close>

theorem init_thread_count:
  assumes "thpool_init s n0 m_pool m_threads m_queue create = Some (Some tp_p, s')"
  shows "\<exists>pool ta ids.
           pool_heap s' tp_p = Some pool \<and> threadsN pool = max n0 1 \<and>
           threads pool = Some ta \<and> m_threads = Some ta \<and>
           ids_heap s' ta = Some ids \<and> int (length ids) = max n0 1 \<and>
           nEmpty pool = Some (nat (max n0 1)) \<and>
           workers s' = workers s @ map (\<lambda>tid. (tid, tp_p)) (spawned create [0..<nat (max n0 1)]) \<and>
           err_out s' = err_out s @ spawn_failures create [0..<nat (max n0 1)] \<and>
           int (length (spawned create [0..<nat (max n0 1)]) +
                length (spawn_failures create [0..<nat (max n0 1)])) = max n0 1 \<and>
           ((\<forall>t < nat (max n0 1). \<exists>tid. create t = Inr tid) \<longrightarrow>
              int (length (workers s')) = int (length (workers s)) + max n0 1)"
proof -
  define n where "n = max n0 1"
  have n1: "1 \<le> n" by (simp add: n_def)
  from init_success_facts[OF assms] obtain ta qa where ta: "m_threads = Some ta"
    and post: "spawn_post (initial_pool_state s n tp_p ta qa) s' tp_p ta create [0..<nat n]"
    unfolding n_def by blast
  from post have pool: "pool_heap s' tp_p = Some \<lparr>threads = Some ta, threadsN = n, jobqueue = Some qa,
           mutex = Some 1, nEmpty = Some (nat n), nStored = Some 0\<rparr>"
    by (simp add: spawn_post_def initial_pool_state_def)
  from post have "map_option length (ids_heap s' ta) = Some (nat n)"
    by (simp add: spawn_post_def initial_pool_state_def)
  then obtain ids where ids: "ids_heap s' ta = Some ids" "length ids = nat n" by auto
  from post have w: "workers s' = workers s @ map (\<lambda>tid. (tid, tp_p)) (spawned create [0..<nat n])"
    and e: "err_out s' = err_out s @ spawn_failures create [0..<nat n]"
    by (simp_all add: spawn_post_def initial_pool_state_def)
  have cnt: "int (length (spawned create [0..<nat n]) + length (spawn_failures create [0..<nat n])) = n"
    using spawn_counts[of create "[0..<nat n]"] n1 by simp
  have "(\<forall>t < nat n. \<exists>tid. create t = Inr tid) \<longrightarrow>
          int (length (workers s')) = int (length (workers s)) + n"
  proof
    assume "\<forall>t < nat n. \<exists>tid. create t = Inr tid"
    then have "length (spawned create [0..<nat n]) = length [0..<nat n]"
      by (intro spawn_all) simp
    with w n1 show "int (length (workers s')) = int (length (workers s)) + n" by simp
  qed
  with pool ids ta w e cnt n1 show ?thesis unfolding n_def[symmetric] by simp
qed

theorem init_thread_count_witness:
  "\<exists>s'. thpool_init boot_state 0 (Some (0, junk_pool)) (Some 0) (Some (0, junk_queue))
           (\<lambda>t. Inr (5 + t)) = Some (Some 0, s') \<and>
         (\<exists>pool ids. pool_heap s' 0 = Some pool \<and> threadsN pool = 1 \<and> threads pool = Some 0 \<and>
            ids_heap s' 0 = Some ids \<and> length ids = 1 \<and> nEmpty pool = Some 1 \<and>
            length (workers s') = 1)"
proof -
  let ?create = "\<lambda>t::nat. (Inr (5 + t) :: string + nat)"
  from init_success[of boot_state 0 0 junk_pool 0 0 junk_queue ?create]
  obtain s' where s': "thpool_init boot_state 0 (Some (0, junk_pool)) (Some 0)
        (Some (0, junk_queue)) ?create = Some (Some 0, s')"
    by blast
  have all: "\<forall>t < nat (max 0 1). \<exists>tid. ?create t = Inr tid" by simp
  from init_thread_count[OF s'] all s' show ?thesis
    by (auto simp: boot_state_def)
qed

text \<open>C5 without the proviso fails: the number of workers started is not
  \<open>max threadsN 1\<close> in general.  With 2 threads requested and a first \<^verbatim>\<open>pthread_create\<close>
  that fails, \<^verbatim>\<open>thpool_init\<close> reports the failure, goes on and returns the pool at
  address 0 with one worker, which is not \<open>max 2 1\<close>.\<close>

theorem init_spawn_count_counterexample:
  "map_option (\<lambda>(r, s'). (r, length (workers s'), int (length (workers s')) = max 2 1))
     (thpool_init boot_state 2 (Some (0, junk_pool)) (Some 0) (Some (0, junk_queue))
        (\<lambda>t. if t = 0 then Inl ''Resource temporarily unavailable'' else Inr 5)) =
   Some (Some 0, 1, False)"
proof -
  let ?create = "\<lambda>t::nat. if t = 0 then Inl ''Resource temporarily unavailable'' else Inr (5::nat)"
  from init_success[of boot_state 2 0 junk_pool 0 0 junk_queue ?create]
  obtain s' where s': "thpool_init boot_state 2 (Some (0, junk_pool)) (Some 0)
        (Some (0, junk_queue)) ?create = Some (Some 0, s')"
    "spawn_post (initial_pool_state boot_state (max 2 1) 0 0 0) s' 0 0 ?create [0..<nat (max 2 1)]"
    by blast
  have "[0..<nat (max 2 1)] = [0, 1]" by (simp add: upt_rec)
  with s'(2) have "workers s' = [(5, 0)]"
    by (simp add: spawn_post_def spawned_def initial_pool_state_def boot_state_def)
  with s'(1) show ?thesis by simp
qed

text \<open>C6.  If any of the three allocations of \<^verbatim>\<open>thpool_init\<close> fails (the pool, the array
  of thread ids, the job queue), it returns \<^verbatim>\<open>NULL\<close>, and the blocks it had allocated
  before are freed: every heap is what it was at the call and no worker was started.
  The blocks \<^verbatim>\<open>malloc\<close> returned were not live before.\<close>

theorem init_failure_releases:
  assumes fail: "m_pool = None \<or> m_threads = None \<or> m_queue = None"
    and fresh: "malloc_fresh (pool_heap s) (map_option fst m_pool)"
      "malloc_fresh (ids_heap s) m_threads"
  shows "\<exists>s'. thpool_init s n0 m_pool m_threads m_queue create = Some (None, s') \<and>
           pool_heap s' = pool_heap s \<and> ids_heap s' = ids_heap s \<and>
           queue_heap s' = queue_heap s \<and> job_heap s' = job_heap s \<and>
           workers s' = workers s"
proof (cases m_pool)
  case None
  then show ?thesis by (simp add: thpool_init_def log_err_def)
next
  case (Some a)
  obtain tp pool0 where a: "a = (tp, pool0)" by (cases a)
  with Some fresh have fp: "pool_heap s tp = None" by (simp add: malloc_fresh_def)
  then have restore: "(pool_heap s)(tp := None) = pool_heap s" by (simp add: fun_upd_idem)
  show ?thesis
  proof (cases m_threads)
    case None
    with Some a restore show ?thesis
      by (simp add: thpool_init_def upd_pool_def free_pool_def log_err_def)
  next
    case mt: (Some ta)
    with fresh have "ids_heap s ta = None" by (simp add: malloc_fresh_def)
    then have restore': "(ids_heap s)(ta := None) = ids_heap s" by (simp add: fun_upd_idem)
    from fail Some mt have "m_queue = None" by simp
    with Some a mt restore restore' show ?thesis
      by (simp add: thpool_init_def upd_pool_def free_pool_def free_ids_def log_err_def
              thpool_jobqueue_init_def)
  qed
qed

theorem init_failure_releases_witness:
  "malloc_fresh (pool_heap ready_state) (map_option fst (Some (3, junk_pool))) \<and>
   malloc_fresh (ids_heap ready_state) (Some 4) \<and>
   (\<exists>s'. thpool_init ready_state 2 (Some (3, junk_pool)) (Some 4) None (\<lambda>t. Inr (5 + t)) =
            Some (None, s') \<and>
          pool_heap s' = pool_heap ready_state \<and> ids_heap s' = ids_heap ready_state \<and>
          queue_heap s' = queue_heap ready_state \<and> job_heap s' = job_heap ready_state \<and>
          workers s' = workers ready_state)"
proof -
  have f: "malloc_fresh (pool_heap ready_state) (map_option fst (Some (3, junk_pool)))"
    "malloc_fresh (ids_heap ready_state) (Some 4)"
    by (simp_all add: malloc_fresh_def ready_state_def)
  have "Some (3, junk_pool) = None \<or> Some (4::addr) = None \<or>
        (None :: (addr \<times> thpool_jobqueue) option) = None" by simp
  from init_failure_releases[OF this f] f show ?thesis by blast
qed

text \<open>C7.  When the worker comes back from its wait on \<^verbatim>\<open>nStored\<close> and \<open>thpool_keepalive\<close> is
  0, its inner test sends it back to the test of the loop with the state untouched,
  that test ends the loop, and in every run from there, whatever the other threads
  do, the worker takes these two steps at most: it never enters the critical
  section, never dequeues and never calls a job.\<close>

theorem worker_exits_after_clear:
  assumes "w_pc w = W_if" and "thpool_keepalive s = 0"
    and "worker_run tp_p (s, w) tr (s', w')"
  shows "(exit_status s = None \<longrightarrow>
            thpool_thread_do tp_p wait_fails s w = Next s (w\<lparr>w_pc := W_while\<rparr>)) \<and>
         (exit_status s' = None \<longrightarrow>
            thpool_thread_do tp_p wait_fails s' (w\<lparr>w_pc := W_while\<rparr>) =
              Next s' (w\<lparr>w_pc := W_return\<rparr>)) \<and>
         thpool_keepalive s' = 0 \<and>
         ((tr = [] \<and> w' = w) \<or>
          (tr = [W_if] \<and> w' = w\<lparr>w_pc := W_while\<rparr>) \<or>
          (tr = [W_if, W_while] \<and> w' = w\<lparr>w_pc := W_return\<rparr>))"
proof -
  from worker_run_after_clear[OF assms(3,1,2)] have
    inv: "thpool_keepalive s' = 0"
      "(tr = [] \<and> w' = w) \<or> (tr = [W_if] \<and> w' = w\<lparr>w_pc := W_while\<rparr>) \<or>
       (tr = [W_if, W_while] \<and> w' = w\<lparr>w_pc := W_return\<rparr>)"
    by simp_all
  have "exit_status s = None \<longrightarrow>
          thpool_thread_do tp_p wait_fails s w = Next s (w\<lparr>w_pc := W_while\<rparr>)"
    using assms(1,2) by (simp add: thpool_thread_do_def)
  moreover have "exit_status s' = None \<longrightarrow>
          thpool_thread_do tp_p wait_fails s' (w\<lparr>w_pc := W_while\<rparr>) =
            Next s' (w\<lparr>w_pc := W_return\<rparr>)"
    using inv(1) by (simp add: thpool_thread_do_def)
  ultimately show ?thesis using inv by blast
qed

theorem worker_exits_after_clear_witness:
  "w_pc idle_worker = W_if \<and> thpool_keepalive (queued_state\<lparr>thpool_keepalive := 0\<rparr>) = 0 \<and>
   worker_run 0 (queued_state\<lparr>thpool_keepalive := 0\<rparr>, idle_worker) [W_if, W_while]
     (queued_state\<lparr>thpool_keepalive := 0\<rparr>, idle_worker\<lparr>w_pc := W_return\<rparr>) \<and>
   thpool_thread_do 0 False (queued_state\<lparr>thpool_keepalive := 0\<rparr>) idle_worker =
     Next (queued_state\<lparr>thpool_keepalive := 0\<rparr>) (idle_worker\<lparr>w_pc := W_while\<rparr>) \<and>
   thpool_thread_do 0 False (queued_state\<lparr>thpool_keepalive := 0\<rparr>) (idle_worker\<lparr>w_pc := W_while\<rparr>) =
     Next (queued_state\<lparr>thpool_keepalive := 0\<rparr>) (idle_worker\<lparr>w_pc := W_return\<rparr>)"
proof -
  let ?s = "queued_state\<lparr>thpool_keepalive := 0\<rparr>"
  have pc: "w_pc idle_worker = W_if" and clear: "thpool_keepalive ?s = 0"
    and alive: "exit_status ?s = None"
    by (simp_all add: idle_worker_def queued_state_def)
  have s1: "thpool_thread_do 0 False ?s idle_worker = Next ?s (idle_worker\<lparr>w_pc := W_while\<rparr>)"
    by (simp add: thpool_thread_do_def idle_worker_def queued_state_def)
  have s2: "thpool_thread_do 0 False ?s (idle_worker\<lparr>w_pc := W_while\<rparr>) =
              Next ?s (idle_worker\<lparr>w_pc := W_return\<rparr>)"
    by (simp add: thpool_thread_do_def idle_worker_def queued_state_def)
  have "worker_run 0 (?s, idle_worker) ([] @ [w_pc idle_worker]) (?s, idle_worker\<lparr>w_pc := W_while\<rparr>)"
    by (rule worker_run.w_step[OF worker_run.w_start s1])
  from worker_run.w_step[OF this s2]
  have run: "worker_run 0 (?s, idle_worker) [W_if, W_while] (?s, idle_worker\<lparr>w_pc := W_return\<rparr>)"
    by (simp add: idle_worker_def)
  from worker_exits_after_clear[OF pc clear run, of False] pc clear run alive show ?thesis
    by simp
qed

text \<open>C8.  Whenever \<^verbatim>\<open>thpool_add_work\<close> returns, it returns 0.  When its \<^verbatim>\<open>malloc\<close> fails it
  prints a diagnostic on \<^verbatim>\<open>stderr\<close> and terminates the process with exit status 1; no
  run goes on from there, so it does not return.\<close>

theorem add_work_returns_zero_or_exits:
  assumes "a_pc a = A_malloc" and "exit_status s = None"
  shows "(\<forall>s' a' v. submit_run tp_p function_p arg_p (s, a) (s', a') \<longrightarrow>
            a_pc a' = A_return v \<longrightarrow> v = 0) \<and>
         (\<exists>s1. thpool_add_work tp_p function_p arg_p None wait_fails s a = Next s1 a \<and>
            exit_status s1 = Some 1 \<and>
            err_out s1 = err_out s @ [''thpool_add_work(): Could not allocate memory for new job''] \<and>
            (\<forall>c'. submit_run tp_p function_p arg_p (s1, a) c' \<longrightarrow> c' = (s1, a)))"
proof -
  define s1 where
    "s1 = proc_exit (log_err s ''thpool_add_work(): Could not allocate memory for new job'') 1"
  have step: "thpool_add_work tp_p function_p arg_p None wait_fails s a = Next s1 a"
    using assms by (simp add: thpool_add_work_def s1_def)
  have dead: "exit_status s1 = Some 1" "exit_status s1 \<noteq> None"
    and out: "err_out s1 = err_out s @ [''thpool_add_work(): Could not allocate memory for new job'']"
    by (simp_all add: s1_def proc_exit_def log_err_def)
  have "\<forall>c'. submit_run tp_p function_p arg_p (s1, a) c' \<longrightarrow> c' = (s1, a)"
    using submit_run_exited[OF _ dead(2)] by blast
  moreover have "\<forall>s' a' v. submit_run tp_p function_p arg_p (s, a) (s', a') \<longrightarrow>
            a_pc a' = A_return v \<longrightarrow> v = 0"
    using submit_return_value[OF _ assms(1)] by blast
  ultimately show ?thesis using step dead(1) out by blast
qed

theorem add_work_returns_zero_or_exits_witness:
  "a_pc new_submitter = A_malloc \<and> exit_status ready_state = None \<and>
   (\<exists>s' a'. submit_run 0 7 8 (ready_state, new_submitter) (s', a') \<and> a_pc a' = A_return 0) \<and>
   (\<exists>s1. thpool_add_work 0 7 8 None False ready_state new_submitter = Next s1 new_submitter \<and>
      exit_status s1 = Some 1 \<and>
      err_out s1 = err_out ready_state @
        [''thpool_add_work(): Could not allocate memory for new job''])"
proof -
  have pc: "a_pc new_submitter = A_malloc" and alive: "exit_status ready_state = None"
    by (simp_all add: new_submitter_def ready_state_def)
  have "job_heap ready_state 3 = None" "int (length ([]::addr list)) < INT_MAX"
    "pool_heap ready_state 0 = Some \<lparr>threads = Some 0, threadsN = 2, jobqueue = Some 0,
                          mutex = Some 1, nEmpty = Some 2, nStored = Some 0\<rparr>"
    by (simp_all add: ready_state_def INT_MAX_def)
  from submit_completes[OF ready_rel alive this, of 1 0 0 new_submitter 7 8] pc
  obtain s' a' where run: "submit_run 0 7 8 (ready_state, new_submitter) (s', a')"
    "a_pc a' = A_return 0" by auto
  from add_work_returns_zero_or_exits[OF pc alive, of 0 7 8 False] pc alive run
  show ?thesis by blast
qed

text \<open>C9.  After a \<^verbatim>\<open>thpool_init\<close> that returns a pool, with clamped thread count
  \<open>N = max threadsN 1\<close>, the semaphores of the pool hold \<^verbatim>\<open>mutex\<close> = 1, \<^verbatim>\<open>nEmpty\<close> = \<open>N\<close>
  and \<^verbatim>\<open>nStored\<close> = 0.\<close>

theorem init_semaphores:
  assumes "thpool_init s n0 m_pool m_threads m_queue create = Some (Some tp_p, s')"
  shows "\<exists>pool. pool_heap s' tp_p = Some pool \<and>
           mutex pool = Some 1 \<and> nEmpty pool = Some (nat (max n0 1)) \<and> nStored pool = Some 0"
proof -
  from init_success_facts[OF assms] obtain ta qa where
    "spawn_post (initial_pool_state s (max n0 1) tp_p ta qa) s' tp_p ta create [0..<nat (max n0 1)]"
    by blast
  then show ?thesis by (simp add: spawn_post_def initial_pool_state_def)
qed

theorem init_semaphores_witness:
  "\<exists>s'. thpool_init boot_state 4 (Some (0, junk_pool)) (Some 0) (Some (0, junk_queue))
           (\<lambda>t. Inr (5 + t)) = Some (Some 0, s') \<and>
         (\<exists>pool. pool_heap s' 0 = Some pool \<and>
            mutex pool = Some 1 \<and> nEmpty pool = Some 4 \<and> nStored pool = Some 0)"
proof -
  let ?create = "\<lambda>t::nat. (Inr (5 + t) :: string + nat)"
  from init_success[of boot_state 4 0 junk_pool 0 0 junk_queue ?create]
  obtain s' where s': "thpool_init boot_state 4 (Some (0, junk_pool)) (Some 0)
        (Some (0, junk_queue)) ?create = Some (Some 0, s')"
    by blast
  from init_semaphores[OF s'] s' show ?thesis by auto
qed

text \<open>C10.  On a well-formed queue \<^verbatim>\<open>thpool_jobqueue_peek\<close> returns the tail reference,
  which is non-null iff \<^verbatim>\<open>jobsN\<close> is not 0.  The critical section of the worker reads
  through that result with no test: it is undefined behaviour exactly when the queue
  is empty, and on a non-empty queue it reads the function and the argument of the
  oldest job and removes that job.\<close>

theorem peek_deref_safety:
  assumes rel: "queue_rel s tp_p ns" and g: "get_jobqueue s tp_p = Some (qa, q)"
  shows "thpool_jobqueue_peek s tp_p = Some (tail q) \<and>
         (tail q \<noteq> None \<longleftrightarrow> jobsN q \<noteq> 0) \<and>
         (worker_critical s tp_p = None \<longleftrightarrow> jobsN q = 0) \<and>
         (exit_status s = None \<longrightarrow>
            (thpool_thread_do tp_p wait_fails s (w\<lparr>w_pc := W_critical\<rparr>) = Undefined
               \<longleftrightarrow> jobsN q = 0)) \<and>
         (jobsN q \<noteq> 0 \<longrightarrow>
            (\<exists>j s'. tail q = Some (last ns) \<and> job_heap s (last ns) = Some j \<and>
               worker_critical s tp_p = Some (tail q, job_function j, job_arg j, s') \<and>
               queue_rel s' tp_p (butlast ns)))"
proof -
  from queue_relD[OF rel] g have q: "jobsN q = int (length ns)"
    "tail q = (if ns = [] then None else Some (last ns))" by auto
  have peek: "thpool_jobqueue_peek s tp_p = Some (tail q)"
    using peek_correct[OF rel] q by simp
  show ?thesis
  proof (cases ns rule: rev_cases)
    case Nil
    with rel have "worker_critical s tp_p = None" by (simp add: critical_empty)
    with Nil q peek show ?thesis by (simp add: thpool_thread_do_def)
  next
    case (snoc xs c)
    from critical_nonempty[of s tp_p xs c] rel snoc obtain j s' where
      c: "job_heap s c = Some j"
         "worker_critical s tp_p = Some (Some c, job_function j, job_arg j, s')"
         "queue_rel s' tp_p xs" by blast
    with snoc q peek show ?thesis by (auto simp: thpool_thread_do_def)
  qed
qed

theorem peek_deref_safety_witness:
  "queue_rel queued_state 0 [2, 1] \<and> queue_rel ready_state 0 [] \<and>
   thpool_jobqueue_peek queued_state 0 = Some (Some 1) \<and>
   worker_critical queued_state 0 \<noteq> None \<and>
   thpool_jobqueue_peek ready_state 0 = Some None \<and>
   worker_critical ready_state 0 = None \<and>
   thpool_thread_do 0 False ready_state (idle_worker\<lparr>w_pc := W_critical\<rparr>) = Undefined"
proof -
  have g1: "get_jobqueue queued_state 0 = Some (0, \<lparr>head = Some 2, tail = Some 1, jobsN = 2\<rparr>)"
    by (simp add: get_jobqueue_def queued_state_def)
  have g2: "get_jobqueue ready_state 0 = Some (0, \<lparr>head = None, tail = None, jobsN = 0\<rparr>)"
    and alive: "exit_status ready_state = None"
    by (simp_all add: get_jobqueue_def ready_state_def)
  from peek_deref_safety[OF queued_rel g1, of False idle_worker]
    peek_deref_safety[OF ready_rel g2, of False idle_worker] queued_rel ready_rel alive
  show ?thesis by simp
qed

end
